theory Spec2Isabelle
  imports Main
begin

section \<open>JavaScript values\<close>

text \<open>
  The values that reach the session guard of \<^verbatim>\<open>home.js\<close>: what \<^verbatim>\<open>resp.json()\<close> yields,
  and \<^verbatim>\<open>undefined\<close> for a property that is not there. Strings are lists of 8-bit
  characters. Numbers are the integers (the API's expiries are epoch seconds); a fraction
  in a response body is outside the model, and so is the exponent notation JavaScript
  prints for a number of 22 digits or more.
\<close>

datatype jsval =
    JUndefined
  | JNull
  | JBool bool
  | JNum int
  | JStr string
  | JArr "jsval list"
  | JObj "(string \<times> jsval) list"

datatype error =
    TypeError
  | SyntaxError
  | NetworkFailure
  | QuotaExceeded
  | Error string

definition digit_char :: "nat \<Rightarrow> char" where
  "digit_char d = char_of (48 + d)"

fun decimal :: "nat \<Rightarrow> string" where
  "decimal n = (if n < 10 then [digit_char n] else decimal (n div 10) @ [digit_char (n mod 10)])"

declare decimal.simps [simp del]

definition number_toString :: "int \<Rightarrow> string" where
  "number_toString i = (if i < 0 then CHR ''-'' # decimal (nat (- i)) else decimal (nat i))"

fun join :: "string \<Rightarrow> string list \<Rightarrow> string" where
  "join sep [] = []"
| "join sep [x] = x"
| "join sep (x # y # ys) = x @ sep @ join sep (y # ys)"

text \<open>
  \<^verbatim>\<open>String(v)\<close>, which is also what \<^verbatim>\<open>localStorage.setItem\<close> and a template literal apply to
  a value that is not a string. An array joins the strings of its elements with a comma,
  \<^verbatim>\<open>null\<close> and \<^verbatim>\<open>undefined\<close> elements giving the empty string.
\<close>

fun toString :: "jsval \<Rightarrow> string" where
  "toString JUndefined = ''undefined''"
| "toString JNull = ''null''"
| "toString (JBool b) = (if b then ''true'' else ''false'')"
| "toString (JNum i) = number_toString i"
| "toString (JStr s) = s"
| "toString (JArr xs) =
     join '','' (map (\<lambda>x. if x = JUndefined \<or> x = JNull then [] else toString x) xs)"
| "toString (JObj kvs) = ''[object Object]''"

text \<open>Truthiness, as \<^verbatim>\<open>!!v\<close>, \<^verbatim>\<open>a && b\<close> and \<^verbatim>\<open>if (v)\<close> see it.\<close>

fun truthy :: "jsval \<Rightarrow> bool" where
  "truthy JUndefined = False"
| "truthy JNull = False"
| "truthy (JBool b) = b"
| "truthy (JNum i) = (i \<noteq> 0)"
| "truthy (JStr s) = (s \<noteq> [])"
| "truthy (JArr xs) = True"
| "truthy (JObj kvs) = True"

text \<open>
  Property access \<^verbatim>\<open>v.k\<close> for the field names of a token response: a \<^verbatim>\<open>TypeError\<close> on
  \<^verbatim>\<open>null\<close> and \<^verbatim>\<open>undefined\<close>, the field of an object, \<^verbatim>\<open>undefined\<close> anywhere else.
\<close>

fun getProp :: "jsval \<Rightarrow> string \<Rightarrow> error + jsval" where
  "getProp JUndefined k = Inl TypeError"
| "getProp JNull k = Inl TypeError"
| "getProp (JObj kvs) k = (case map_of kvs k of None \<Rightarrow> Inr JUndefined | Some v \<Rightarrow> Inr v)"
| "getProp v k = Inr JUndefined"

section \<open>escapeHtml\<close>

text \<open>
  \<^verbatim>\<open>s.replaceAll(p, r)\<close> for a pattern \<open>p\<close> of one character and a replacement without
  \<^verbatim>\<open>$\<close>: every occurrence of the character is replaced, from left to right.
\<close>

definition replaceAll :: "char \<Rightarrow> string \<Rightarrow> string \<Rightarrow> string" where
  "replaceAll p r s = concat (map (\<lambda>c. if c = p then r else [c]) s)"

definition escapeHtml :: "jsval \<Rightarrow> string" where
  "escapeHtml s =
     replaceAll (CHR 0x27) ''&#039;''
       (replaceAll (CHR 0x22) ''&quot;''
         (replaceAll CHR ''>'' ''&gt;''
           (replaceAll CHR ''<'' ''&lt;''
             (replaceAll CHR ''&'' ''&amp;'' (toString s)))))"

text \<open>The five entities, and the character-by-character replacement the claim compares with.\<close>

definition entities :: "string list" where
  "entities = [''&amp;'', ''&lt;'', ''&gt;'', ''&quot;'', ''&#039;'']"

definition entity :: "char \<Rightarrow> string" where
  "entity c =
     (if c = CHR ''&'' then ''&amp;''
      else if c = CHR ''<'' then ''&lt;''
      else if c = CHR ''>'' then ''&gt;''
      else if c = CHR 0x22 then ''&quot;''
      else if c = CHR 0x27 then ''&#039;''
      else [c])"

section \<open>Browser storage and the cached session\<close>

text \<open>
  \<^verbatim>\<open>localStorage\<close> and \<^verbatim>\<open>sessionStorage\<close> map keys to strings; \<^verbatim>\<open>getItem\<close> of a key that is
  not there is \<^verbatim>\<open>null\<close>, here \<open>None\<close>. \<^verbatim>\<open>setItem\<close> throws a \<^verbatim>\<open>QuotaExceededError\<close> when the
  browser refuses the write; whether it does is the browser's decision, a parameter of the
  model, and a refused write leaves the storage as it was.
\<close>

type_synonym storage = "string \<rightharpoonup> string"

definition setItem ::
  "(storage \<Rightarrow> string \<Rightarrow> string \<Rightarrow> bool) \<Rightarrow> string \<Rightarrow> string \<Rightarrow> storage \<Rightarrow> storage option" where
  "setItem accepts k v st = (if accepts st k v then Some (st(k \<mapsto> v)) else None)"

definition removeItem :: "string \<Rightarrow> storage \<Rightarrow> storage" where
  "removeItem k st = st(k := None)"

abbreviation LS_access :: string where "LS_access \<equiv> ''auth.access_token''"
abbreviation LS_accessExp :: string where "LS_accessExp \<equiv> ''auth.access_expires_at''"
abbreviation LS_refresh :: string where "LS_refresh \<equiv> ''auth.refresh_token''"
abbreviation LS_refreshExp :: string where "LS_refreshExp \<equiv> ''auth.refresh_expires_at''"
abbreviation LS_me :: string where "LS_me \<equiv> ''auth.me''"
abbreviation redirecting :: string where "redirecting \<equiv> ''auth.redirecting''"

text \<open>
  \<^verbatim>\<open>parseInt(s, 10)\<close>: leading white space is skipped, then an optional sign, then the
  longest run of decimal digits; \<open>None\<close> is \<^verbatim>\<open>NaN\<close>, the result when there is no digit.
  The value is the exact integer (a double rounds beyond \<open>2^53\<close>; the comparisons below
  with a clock reading give the same answer).
\<close>

definition isWhiteSpace :: "char \<Rightarrow> bool" where
  "isWhiteSpace c = (c \<in> set [CHR 0x09, CHR 0x0A, CHR 0x0B, CHR 0x0C, CHR 0x0D, CHR 0x20])"

definition isDigit :: "char \<Rightarrow> bool" where
  "isDigit c = (48 \<le> (of_char c :: nat) \<and> (of_char c :: nat) \<le> 57)"

definition digits_value :: "string \<Rightarrow> nat" where
  "digits_value ds = foldl (\<lambda>a c. 10 * a + (of_char c - 48)) 0 ds"

definition parseInt :: "string \<Rightarrow> int option" where
  "parseInt s =
     (let t = dropWhile isWhiteSpace s;
          neg = (t \<noteq> [] \<and> hd t = CHR ''-'');
          u = (if t \<noteq> [] \<and> (hd t = CHR ''-'' \<or> hd t = CHR ''+'') then tl t else t);
          ds = takeWhile isDigit u
      in if ds = [] then None
         else Some (if neg then - int (digits_value ds) else int (digits_value ds)))"

definition getAT :: "storage \<Rightarrow> string" where
  "getAT ls = (case ls LS_access of None \<Rightarrow> [] | Some v \<Rightarrow> v)"

definition getATExp :: "storage \<Rightarrow> int option" where
  "getATExp ls = parseInt (case ls LS_accessExp of None \<Rightarrow> ''0'' | Some v \<Rightarrow> if v = [] then ''0'' else v)"

definition getRT :: "storage \<Rightarrow> string" where
  "getRT ls = (case ls LS_refresh of None \<Rightarrow> [] | Some v \<Rightarrow> v)"

definition getRTExp :: "storage \<Rightarrow> int option" where
  "getRTExp ls = parseInt (case ls LS_refreshExp of None \<Rightarrow> ''0'' | Some v \<Rightarrow> if v = [] then ''0'' else v)"

text \<open>
  \<open>now\<close> is \<^verbatim>\<open>nowEpoch()\<close>, the clock in whole seconds. A comparison with \<^verbatim>\<open>NaN\<close> is false.
\<close>

definition hasValidAT :: "int \<Rightarrow> storage \<Rightarrow> bool" where
  "hasValidAT now ls =
     (getAT ls \<noteq> [] \<and> (case getATExp ls of None \<Rightarrow> False | Some exp \<Rightarrow> exp > now + 15))"

definition hasValidRT :: "int \<Rightarrow> storage \<Rightarrow> bool" where
  "hasValidRT now ls =
     (getRT ls \<noteq> [] \<and> (case getRTExp ls of None \<Rightarrow> False | Some exp \<Rightarrow> exp > now + 15))"

definition clearTokens :: "storage \<Rightarrow> storage" where
  "clearTokens ls =
     removeItem LS_me (removeItem LS_refreshExp (removeItem LS_refresh
       (removeItem LS_accessExp (removeItem LS_access ls))))"

section \<open>The page, the network and the observable effects\<close>

text \<open>
  A \<open>url\<close> is a parsed \<^verbatim>\<open>URL\<close> object: its address without the query, and its query
  parameters in order. \<^verbatim>\<open>searchParams.set\<close> overwrites the first parameter of that name
  and drops the others, or appends the parameter when there is none.
\<close>

record url =
  href :: string
  searchParams :: "(string \<times> string) list"

fun searchParams_set :: "string \<Rightarrow> string \<Rightarrow> (string \<times> string) list \<Rightarrow> (string \<times> string) list" where
  "searchParams_set k v [] = [(k, v)]"
| "searchParams_set k v (p # ps) =
     (if fst p = k then (k, v) # filter (\<lambda>q. fst q \<noteq> k) ps else p # searchParams_set k v ps)"

record request =
  req_url :: url
  req_method :: string
  req_headers :: "(string \<times> string) list"
  req_body :: "string option"

text \<open>
  What \<^verbatim>\<open>await fetch(...)\<close> gives: the promise rejects (a network error), or it resolves to
  a response with a status and a body; \<open>json_body\<close> is \<open>None\<close> when \<^verbatim>\<open>resp.json()\<close> rejects
  because the body is not JSON.
\<close>

datatype response = Response (status: nat) (json_body: "jsval option")

definition ok :: "response \<Rightarrow> bool" where
  "ok r = (200 \<le> status r \<and> status r \<le> 299)"

datatype fetch_result = Rejected | Resolved response

type_synonym network = "request \<Rightarrow> fetch_result"

text \<open>
  The constants a page script computes from the document when it is loaded:
  \<open>LOGIN_URL\<close> is \<^verbatim>\<open>new URL(LOGIN_URL, window.location.href)\<close>, already resolved;
  \<open>JSON_stringify\<close> is the built-in serialiser; \<open>quota\<close> tells which writes
  \<^verbatim>\<open>localStorage\<close> accepts. The write of the one-character flag to \<^verbatim>\<open>sessionStorage\<close> is
  taken to succeed.
\<close>

record page =
  API_BASE :: string
  SONGS_BASE :: string
  LOGIN_URL :: url
  JSON_stringify :: "jsval \<Rightarrow> string"
  quota :: "storage \<Rightarrow> string \<Rightarrow> string \<Rightarrow> bool"

datatype event = Fetch request | Navigate url

record world =
  localStorage :: storage
  sessionStorage :: storage
  trace :: "event list"

definition fetches :: "world \<Rightarrow> request list" where
  "fetches w = concat (map (\<lambda>e. case e of Fetch r \<Rightarrow> [r] | Navigate u \<Rightarrow> []) (trace w))"

definition navigations :: "world \<Rightarrow> url list" where
  "navigations w = concat (map (\<lambda>e. case e of Fetch r \<Rightarrow> [] | Navigate u \<Rightarrow> [u]) (trace w))"

section \<open>The session guard\<close>

definition login_target :: "page \<Rightarrow> url" where
  "login_target pg =
     (LOGIN_URL pg)\<lparr>searchParams := searchParams_set ''from'' ''home'' (searchParams (LOGIN_URL pg))\<rparr>"

definition redirectLogin :: "page \<Rightarrow> world \<Rightarrow> world" where
  "redirectLogin pg w =
     (if sessionStorage w redirecting = Some ''1'' then w
      else w\<lparr>sessionStorage := (sessionStorage w)(redirecting \<mapsto> ''1''),
             trace := trace w @ [Navigate (login_target pg)]\<rparr>)"

text \<open>
  \<^verbatim>\<open>saveTokens(data)\<close>: the statements in order, each of which may throw; what was written
  before a throw stays written.
\<close>

definition saveTokens :: "page \<Rightarrow> jsval \<Rightarrow> storage \<Rightarrow> (error + unit) \<times> storage" where
  "saveTokens pg data ls =
     (case getProp data ''access_token'' of
        Inl e \<Rightarrow> (Inl e, ls)
      | Inr at \<Rightarrow>
     (case setItem (quota pg) LS_access (toString at) ls of
        None \<Rightarrow> (Inl QuotaExceeded, ls)
      | Some ls1 \<Rightarrow>
     (case getProp data ''access_expires_at'' of
        Inl e \<Rightarrow> (Inl e, ls1)
      | Inr aexp \<Rightarrow>
     (case setItem (quota pg) LS_accessExp (toString aexp) ls1 of
        None \<Rightarrow> (Inl QuotaExceeded, ls1)
      | Some ls2 \<Rightarrow>
     (case getProp data ''refresh_token'' of
        Inl e \<Rightarrow> (Inl e, ls2)
      | Inr rt \<Rightarrow>
     (if \<not> truthy rt then (Inr (), ls2)
      else
     (case getProp data ''refresh_expires_at'' of
        Inl e \<Rightarrow> (Inl e, ls2)
      | Inr rexp \<Rightarrow>
     (if \<not> truthy rexp then (Inr (), ls2)
      else
     (case setItem (quota pg) LS_refresh (toString rt) ls2 of
        None \<Rightarrow> (Inl QuotaExceeded, ls2)
      | Some ls3 \<Rightarrow>
     (case setItem (quota pg) LS_refreshExp (toString rexp) ls3 of
        None \<Rightarrow> (Inl QuotaExceeded, ls3)
      | Some ls4 \<Rightarrow> (Inr (), ls4)))))))))))"

definition refresh_request :: "page \<Rightarrow> string \<Rightarrow> request" where
  "refresh_request pg rt =
     \<lparr>req_url = \<lparr>href = API_BASE pg @ ''/api/auth/refresh'', searchParams = []\<rparr>,
      req_method = ''POST'',
      req_headers = [(''Content-Type'', ''application/json'')],
      req_body = Some (JSON_stringify pg (JObj [(''refresh_token'', JStr rt)]))\<rparr>"

text \<open>
  \<^verbatim>\<open>ensureAccessToken()\<close>. The value returned is the cached token, the empty string, or
  whatever the response has as \<^verbatim>\<open>access_token\<close>. Everything after the two validity tests
  runs inside \<^verbatim>\<open>try\<close>, whose \<^verbatim>\<open>catch\<close> redirects and returns the empty string.
\<close>

definition ensureAccessToken :: "page \<Rightarrow> int \<Rightarrow> network \<Rightarrow> world \<Rightarrow> jsval \<times> world" where
  "ensureAccessToken pg now net w =
     (if hasValidAT now (localStorage w) then (JStr (getAT (localStorage w)), w)
      else if \<not> hasValidRT now (localStorage w) then (JStr [], redirectLogin pg w)
      else
        let req = refresh_request pg (getRT (localStorage w));
            w1 = w\<lparr>trace := trace w @ [Fetch req]\<rparr>
        in case net req of
             Rejected \<Rightarrow> (JStr [], redirectLogin pg w1)
           | Resolved resp \<Rightarrow>
               if \<not> ok resp then (JStr [], redirectLogin pg w1)
               else (case json_body resp of
                       None \<Rightarrow> (JStr [], redirectLogin pg w1)
                     | Some data \<Rightarrow>
                         (case saveTokens pg data (localStorage w1) of
                            (Inl e, ls') \<Rightarrow> (JStr [], redirectLogin pg (w1\<lparr>localStorage := ls'\<rparr>))
                          | (Inr u, ls') \<Rightarrow>
                              (case getProp data ''access_token'' of
                                 Inl e \<Rightarrow> (JStr [], redirectLogin pg (w1\<lparr>localStorage := ls'\<rparr>))
                               | Inr at \<Rightarrow> (at, w1\<lparr>localStorage := ls'\<rparr>)))))"

definition me_request :: "page \<Rightarrow> jsval \<Rightarrow> request" where
  "me_request pg accessToken =
     \<lparr>req_url = \<lparr>href = API_BASE pg @ ''/api/me'', searchParams = []\<rparr>,
      req_method = ''GET'',
      req_headers = [(''Authorization'', ''Bearer '' @ toString accessToken)],
      req_body = None\<rparr>"

text \<open>
  \<^verbatim>\<open>fetchMe(accessToken)\<close>: \<open>Inl\<close> is the exception of a rejected promise, which the
  function does not catch; \<open>Inr JNull\<close> is the \<^verbatim>\<open>null\<close> it returns after a redirect.
\<close>

definition fetchMe :: "page \<Rightarrow> network \<Rightarrow> jsval \<Rightarrow> world \<Rightarrow> (error + jsval) \<times> world" where
  "fetchMe pg net accessToken w =
     (let req = me_request pg accessToken;
          w1 = w\<lparr>trace := trace w @ [Fetch req]\<rparr>
      in case net req of
           Rejected \<Rightarrow> (Inl NetworkFailure, w1)
         | Resolved res \<Rightarrow>
             if \<not> ok res then (Inr JNull, redirectLogin pg w1)
             else (case json_body res of
                     None \<Rightarrow> (Inl SyntaxError, w1)
                   | Some me \<Rightarrow>
                       (case setItem (quota pg) LS_me (JSON_stringify pg me) (localStorage w1) of
                          None \<Rightarrow> (Inr me, w1)
                        | Some ls' \<Rightarrow> (Inr me, w1\<lparr>localStorage := ls'\<rparr>))))"

definition logout_request :: "page \<Rightarrow> string \<Rightarrow> request" where
  "logout_request pg at =
     \<lparr>req_url = \<lparr>href = API_BASE pg @ ''/api/auth/logout'', searchParams = []\<rparr>,
      req_method = ''POST'',
      req_headers = [(''Authorization'', ''Bearer '' @ at)],
      req_body = None\<rparr>"

text \<open>
  \<^verbatim>\<open>onLogout()\<close>: the call to the logout endpoint is made only with a non-empty token; its
  response is not looked at and its rejection is caught by an empty \<^verbatim>\<open>catch\<close>.
\<close>

definition onLogout :: "page \<Rightarrow> network \<Rightarrow> world \<Rightarrow> world" where
  "onLogout pg net w =
     (let at = getAT (localStorage w);
          w1 = (if at \<noteq> []
                then (case net (logout_request pg at) of
                        Rejected \<Rightarrow> w\<lparr>trace := trace w @ [Fetch (logout_request pg at)]\<rparr>
                      | Resolved res \<Rightarrow> w\<lparr>trace := trace w @ [Fetch (logout_request pg at)]\<rparr>)
                else w);
          w2 = w1\<lparr>localStorage := clearTokens (localStorage w1)\<rparr>
      in redirectLogin pg w2)"

section \<open>fetchAllSongs\<close>

definition songs_request :: "page \<Rightarrow> nat \<Rightarrow> request" where
  "songs_request pg p =
     \<lparr>req_url = \<lparr>href = SONGS_BASE pg @ ''/api/songs'',
                 searchParams = searchParams_set ''page_size'' (decimal 200)
                                  (searchParams_set ''page'' (decimal p) [])\<rparr>,
      req_method = ''GET'',
      req_headers = [],
      req_body = None\<rparr>"

text \<open>
  The \<^verbatim>\<open>while (true)\<close> loop of \<^verbatim>\<open>fetchAllSongs\<close>, with the page number and the rows gathered
  so far as its state. \<open>None\<close> is a loop that never ends; \<open>Some (Inl e)\<close> is the exception
  the function throws; \<open>Some (Inr rows)\<close> is the array it returns. The pause of 50 ms
  between two pages is not modelled.
\<close>

partial_function (option) fetchAllSongs_loop ::
  "page \<Rightarrow> network \<Rightarrow> nat \<Rightarrow> jsval list \<Rightarrow> (error + jsval list) option" where
  "fetchAllSongs_loop pg net p all =
     (case net (songs_request pg p) of
        Rejected \<Rightarrow> Some (Inl NetworkFailure)
      | Resolved res \<Rightarrow>
          if \<not> ok res then Some (Inl (Error (''/api/songs failed: '' @ decimal (status res))))
          else (case json_body res of
                  None \<Rightarrow> Some (Inl SyntaxError)
                | Some rows \<Rightarrow>
                    (case rows of
                       JArr xs \<Rightarrow>
                         if length xs = 0 then Some (Inr all)
                         else if length xs < 200 then Some (Inr (all @ xs))
                         else fetchAllSongs_loop pg net (p + 1) (all @ xs)
                     | _ \<Rightarrow> Some (Inr all))))"

declare fetchAllSongs_loop.simps [code]

definition fetchAllSongs :: "page \<Rightarrow> network \<Rightarrow> (error + jsval list) option" where
  "fetchAllSongs pg net = fetchAllSongs_loop pg net 1 []"

section \<open>Overlapping calls\<close>

text \<open>
  The world after a request has been sent.
\<close>

definition logged :: "request \<Rightarrow> world \<Rightarrow> world" where
  "logged r w = w\<lparr>trace := trace w @ [Fetch r]\<rparr>"

text \<open>
  The three asynchronous functions run on one event loop: a call runs until its next
  \<^verbatim>\<open>await\<close>, and other calls may run before it is resumed. A \<open>task\<close> is a call that has
  been made, or one suspended at \<^verbatim>\<open>await fetch(...)\<close> (with what the promise will give), or
  one suspended at \<^verbatim>\<open>await res.json()\<close> (with what the body parses to), or one that has
  returned or thrown. \<open>resume\<close> runs a task up to its next \<^verbatim>\<open>await\<close>; the code between two
  \<^verbatim>\<open>await\<close>s is that of the three functions above. \<open>interleave\<close> resumes the tasks of a
  page in the order of a schedule, a list of positions in the list of tasks; \<open>settle\<close>
  runs a single call to its end.
\<close>

datatype task =
    Ensure_called int network
  | Ensure_fetching fetch_result
  | Ensure_parsing "jsval option"
  | Me_called network jsval
  | Me_fetching fetch_result
  | Me_parsing "jsval option"
  | Logout_called network
  | Logout_fetching fetch_result
  | Settled

fun resume :: "page \<Rightarrow> task \<Rightarrow> world \<Rightarrow> task \<times> world" where
  "resume pg (Ensure_called now net) w =
     (if hasValidAT now (localStorage w) then (Settled, w)
      else if \<not> hasValidRT now (localStorage w) then (Settled, redirectLogin pg w)
      else (Ensure_fetching (net (refresh_request pg (getRT (localStorage w)))),
            logged (refresh_request pg (getRT (localStorage w))) w))"
| "resume pg (Ensure_fetching Rejected) w = (Settled, redirectLogin pg w)"
| "resume pg (Ensure_fetching (Resolved resp)) w =
     (if \<not> ok resp then (Settled, redirectLogin pg w) else (Ensure_parsing (json_body resp), w))"
| "resume pg (Ensure_parsing None) w = (Settled, redirectLogin pg w)"
| "resume pg (Ensure_parsing (Some data)) w =
     (case saveTokens pg data (localStorage w) of
        (Inl e, ls') \<Rightarrow> (Settled, redirectLogin pg (w\<lparr>localStorage := ls'\<rparr>))
      | (Inr u, ls') \<Rightarrow>
          (case getProp data ''access_token'' of
             Inl e \<Rightarrow> (Settled, redirectLogin pg (w\<lparr>localStorage := ls'\<rparr>))
           | Inr at \<Rightarrow> (Settled, w\<lparr>localStorage := ls'\<rparr>)))"
| "resume pg (Me_called net accessToken) w =
     (Me_fetching (net (me_request pg accessToken)), logged (me_request pg accessToken) w)"
| "resume pg (Me_fetching Rejected) w = (Settled, w)"
| "resume pg (Me_fetching (Resolved res)) w =
     (if \<not> ok res then (Settled, redirectLogin pg w) else (Me_parsing (json_body res), w))"
| "resume pg (Me_parsing None) w = (Settled, w)"
| "resume pg (Me_parsing (Some me)) w =
     (case setItem (quota pg) LS_me (JSON_stringify pg me) (localStorage w) of
        None \<Rightarrow> (Settled, w)
      | Some ls' \<Rightarrow> (Settled, w\<lparr>localStorage := ls'\<rparr>))"
| "resume pg (Logout_called net) w =
     (if getAT (localStorage w) \<noteq> []
      then (Logout_fetching (net (logout_request pg (getAT (localStorage w)))),
            logged (logout_request pg (getAT (localStorage w))) w)
      else (Settled, redirectLogin pg (w\<lparr>localStorage := clearTokens (localStorage w)\<rparr>)))"
| "resume pg (Logout_fetching a) w =
     (Settled, redirectLogin pg (w\<lparr>localStorage := clearTokens (localStorage w)\<rparr>))"
| "resume pg Settled w = (Settled, w)"

fun interleave :: "page \<Rightarrow> nat list \<Rightarrow> task list \<Rightarrow> world \<Rightarrow> task list \<times> world" where
  "interleave pg [] ts w = (ts, w)"
| "interleave pg (i # sched) ts w =
     (if i < length ts
      then interleave pg sched (ts[i := fst (resume pg (ts ! i) w)]) (snd (resume pg (ts ! i) w))
      else interleave pg sched ts w)"

definition settle :: "page \<Rightarrow> task \<Rightarrow> world \<Rightarrow> world" where
  "settle pg t w = snd (interleave pg [0, 0, 0] [t] w)"

section \<open>Notions the properties are stated with\<close>

text \<open>An entity of the list starts at position \<open>i\<close> of \<open>out\<close>.\<close>

definition entity_at :: "string \<Rightarrow> nat \<Rightarrow> bool" where
  "entity_at out i = (\<exists>e \<in> set entities. take (length e) (drop i out) = e)"

text \<open>
  The field \<open>k\<close> of a response body, \<^verbatim>\<open>undefined\<close> when the body has none.
\<close>

definition field :: "jsval \<Rightarrow> string \<Rightarrow> jsval" where
  "field data k = (case getProp data k of Inl e \<Rightarrow> JUndefined | Inr v \<Rightarrow> v)"

text \<open>
  The storage accepts, one after the other, the writes \<open>saveTokens\<close> makes for a response
  body: the access token, its expiry and, when the body has a refresh token and an expiry
  for it, these two.
\<close>

definition writes_accepted :: "page \<Rightarrow> jsval \<Rightarrow> storage \<Rightarrow> bool" where
  "writes_accepted pg data ls =
     (let ls1 = ls(LS_access \<mapsto> toString (field data ''access_token''));
          ls2 = ls1(LS_accessExp \<mapsto> toString (field data ''access_expires_at''));
          ls3 = ls2(LS_refresh \<mapsto> toString (field data ''refresh_token''))
      in quota pg ls LS_access (toString (field data ''access_token''))
         \<and> quota pg ls1 LS_accessExp (toString (field data ''access_expires_at''))
         \<and> (truthy (field data ''refresh_token'') \<and> truthy (field data ''refresh_expires_at'') \<longrightarrow>
              quota pg ls2 LS_refresh (toString (field data ''refresh_token''))
              \<and> quota pg ls3 LS_refreshExp (toString (field data ''refresh_expires_at''))))"

text \<open>
  The logout as the specification words it, to compare \<open>onLogout\<close> with: the same call to
  the logout endpoint, then the five keys and the redirect flag cleared, then the
  redirect.
\<close>

definition logout_as_claimed :: "page \<Rightarrow> network \<Rightarrow> world \<Rightarrow> world" where
  "logout_as_claimed pg net w =
     (let at = getAT (localStorage w);
          w1 = (if at \<noteq> [] then logged (logout_request pg at) w else w);
          w2 = w1\<lparr>localStorage := clearTokens (localStorage w1),
                  sessionStorage := removeItem redirecting (sessionStorage w1)\<rparr>
      in redirectLogin pg w2)"

text \<open>
  Two worlds agree on what the redirect guard reads and on the navigations made so far.
\<close>

definition same_nav :: "world \<Rightarrow> world \<Rightarrow> bool" where
  "same_nav w' w = (sessionStorage w' = sessionStorage w \<and> navigations w' = navigations w)"

text \<open>
  How one page of the song list was answered: \<open>full_page\<close> when the loop goes on to the
  next page (a success status and an array of at least 200 rows); \<open>page_rows\<close> are the
  rows the answer contributes (none unless it is an array); \<open>page_error\<close> is the exception
  the answer makes the loop throw, if any.
\<close>

definition full_page :: "fetch_result \<Rightarrow> bool" where
  "full_page a =
     (case a of
        Rejected \<Rightarrow> False
      | Resolved res \<Rightarrow>
          ok res \<and> (case json_body res of Some (JArr xs) \<Rightarrow> 200 \<le> length xs | _ \<Rightarrow> False))"

definition page_rows :: "fetch_result \<Rightarrow> jsval list" where
  "page_rows a =
     (case a of
        Rejected \<Rightarrow> []
      | Resolved res \<Rightarrow> (case json_body res of Some (JArr xs) \<Rightarrow> xs | _ \<Rightarrow> []))"

definition page_error :: "fetch_result \<Rightarrow> error option" where
  "page_error a =
     (case a of
        Rejected \<Rightarrow> Some NetworkFailure
      | Resolved res \<Rightarrow>
          if \<not> ok res then Some (Error (''/api/songs failed: '' @ decimal (status res)))
          else if json_body res = None then Some SyntaxError
          else None)"

section \<open>Example sessions\<close>

text \<open>
  A page served from \<^verbatim>\<open>localhost\<close> whose storage accepts every write. Its serialiser
  writes JSON text for values whose strings need no escaping.
\<close>

fun json_text :: "jsval \<Rightarrow> string" where
  "json_text (JStr s) = CHR 0x22 # s @ [CHR 0x22]"
| "json_text (JArr xs) = ''['' @ join '','' (map json_text xs) @ '']''"
| "json_text (JObj kvs) =
     ''{'' @ join '','' (map (\<lambda>kv. CHR 0x22 # fst kv @ [CHR 0x22] @ '':'' @ json_text (snd kv)) kvs) @ ''}''"
| "json_text JUndefined = ''null''"
| "json_text v = toString v"

definition example_page :: page where
  "example_page =
     \<lparr>API_BASE = ''http://localhost:8000'',
      SONGS_BASE = ''http://localhost:8000'',
      LOGIN_URL = \<lparr>href = ''http://localhost/login.html'', searchParams = []\<rparr>,
      JSON_stringify = json_text,
      quota = (\<lambda>st k v. True)\<rparr>"

text \<open>The same page on a browser whose \<^verbatim>\<open>localStorage\<close> is full.\<close>

definition full_storage_page :: page where
  "full_storage_page = example_page\<lparr>quota := (\<lambda>st k v. False)\<rparr>"

text \<open>
  Four cached sessions, looked at when the clock reads 1000: an access token about to
  expire and no refresh token; the same with a refresh token; a good access token and no
  refresh token (a login without the persistent option); no access token and a refresh
  token.
\<close>

definition session_expired :: world where
  "session_expired =
     \<lparr>localStorage = [LS_access \<mapsto> ''T1'', LS_accessExp \<mapsto> ''1005'', LS_me \<mapsto> ''{}''],
      sessionStorage = Map.empty,
      trace = []\<rparr>"

definition session_refreshable :: world where
  "session_refreshable =
     \<lparr>localStorage = [LS_access \<mapsto> ''T1'', LS_accessExp \<mapsto> ''1005'',
                      LS_refresh \<mapsto> ''R1'', LS_refreshExp \<mapsto> ''90000'', LS_me \<mapsto> ''{}''],
      sessionStorage = Map.empty,
      trace = []\<rparr>"

definition session_access_only :: world where
  "session_access_only =
     \<lparr>localStorage = [LS_access \<mapsto> ''T1'', LS_accessExp \<mapsto> ''5000''],
      sessionStorage = Map.empty,
      trace = []\<rparr>"

definition session_refresh_only :: world where
  "session_refresh_only =
     \<lparr>localStorage = [LS_refresh \<mapsto> ''R1'', LS_refreshExp \<mapsto> ''90000''],
      sessionStorage = Map.empty,
      trace = []\<rparr>"

text \<open>The second of these sessions in a tab that has redirected to the login page before.\<close>

definition session_redirected :: world where
  "session_redirected = session_refreshable\<lparr>sessionStorage := [redirecting \<mapsto> ''1'']\<rparr>"

text \<open>
  Backends: one that cannot be reached; one that answers 401; one whose refresh answers
  with an access leg only; one whose refresh answers with a refresh token but no expiry
  for it; one that answers a profile; one with 201 songs.
\<close>

definition net_down :: network where
  "net_down = (\<lambda>r. Rejected)"

definition net_401 :: network where
  "net_401 = (\<lambda>r. Resolved (Response 401 None))"

definition access_leg :: jsval where
  "access_leg = JObj [(''access_token'', JStr ''T2''), (''access_expires_at'', JNum 4600)]"

definition net_access_leg :: network where
  "net_access_leg = (\<lambda>r. Resolved (Response 200 (Some access_leg)))"

definition token_without_expiry :: jsval where
  "token_without_expiry =
     JObj [(''access_token'', JStr ''T2''), (''access_expires_at'', JNum 4600),
           (''refresh_token'', JStr ''R2'')]"

definition net_token_without_expiry :: network where
  "net_token_without_expiry = (\<lambda>r. Resolved (Response 200 (Some token_without_expiry)))"

text \<open>Refresh answers with a success status and a body that is not JSON, or is \<^verbatim>\<open>null\<close>.\<close>

definition net_not_json :: network where
  "net_not_json = (\<lambda>r. Resolved (Response 200 None))"

definition net_null :: network where
  "net_null = (\<lambda>r. Resolved (Response 200 (Some JNull)))"

definition net_profile :: network where
  "net_profile = (\<lambda>r. Resolved (Response 200 (Some (JObj [(''username'', JStr ''henry'')]))))"

definition net_songs :: network where
  "net_songs =
     (\<lambda>r. if r = songs_request example_page 1
          then Resolved (Response 200 (Some (JArr (replicate 200 (JStr ''song'')))))
          else Resolved (Response 200 (Some (JArr [JStr ''last song'']))))"

section \<open>escapeHtml: the result contains no markup character\<close>

lemma replaceAll_Nil [simp]: "replaceAll p r [] = []"
  by (simp add: replaceAll_def)

lemma replaceAll_Cons [simp]:
  "replaceAll p r (c # cs) = (if c = p then r else [c]) @ replaceAll p r cs"
  by (simp add: replaceAll_def)

lemma replaceAll_append [simp]:
  "replaceAll p r (xs @ ys) = replaceAll p r xs @ replaceAll p r ys"
  by (simp add: replaceAll_def)

lemma escapeHtml_Str_Cons: "escapeHtml (JStr (c # cs)) = entity c @ escapeHtml (JStr cs)"
  by (simp add: escapeHtml_def entity_def)

lemma escapeHtml_Str: "escapeHtml (JStr s) = concat (map entity s)"
  by (induction s) (simp add: escapeHtml_def, simp add: escapeHtml_Str_Cons)

lemma escapeHtml_toString: "escapeHtml v = escapeHtml (JStr (toString v))"
  by (simp add: escapeHtml_def)

lemma entity_no_markup: "set (entity c) \<inter> {CHR ''<'', CHR ''>'', CHR 0x22, CHR 0x27} = {}"
  by (simp add: entity_def)

lemma entity_amp:
  assumes "i < length (entity c)" and "entity c ! i = CHR ''&''"
  shows "i = 0 \<and> entity c \<in> set entities"
  using assms by (auto simp: entity_def entities_def nth_Cons' split: if_splits)

lemma amp_concat_entity:
  "i < length (concat (map entity s)) \<Longrightarrow> concat (map entity s) ! i = CHR ''&''
    \<Longrightarrow> entity_at (concat (map entity s)) i"
proof (induction s arbitrary: i)
  case Nil
  then show ?case by simp
next
  case (Cons c cs)
  show ?case
  proof (cases "i < length (entity c)")
    case True
    with Cons.prems have "entity c ! i = CHR ''&''" by (simp add: nth_append)
    with True have "i = 0" "entity c \<in> set entities" using entity_amp by blast+
    then show ?thesis by (auto simp: entity_at_def intro!: bexI[of _ "entity c"])
  next
    case False
    let ?j = "i - length (entity c)"
    from False Cons.prems have "?j < length (concat (map entity cs))"
      "concat (map entity cs) ! ?j = CHR ''&''"
      by (auto simp: nth_append)
    then have "entity_at (concat (map entity cs)) ?j" by (rule Cons.IH)
    with False show ?thesis by (auto simp: entity_at_def)
  qed
qed

text \<open>
  Claim C9. For every input, \<open>escapeHtml\<close> replaces each of the five special characters
  of the input's string with its HTML entity (for a string input, \<open>toString\<close> is the
  string itself); none of \<open><\<close>, \<open>>\<close>, the double quote and the single quote occurs in
  the result; and wherever \<open>&\<close> occurs in the result, one of the entities \<open>&amp;\<close>,
  \<open>&lt;\<close>, \<open>&gt;\<close>, \<open>&quot;\<close>, \<open>&#039;\<close> starts there.
\<close>

theorem escapeHtml_entities:
  "escapeHtml v = concat (map entity (toString v))
   \<and> escapeHtml (JStr s) = concat (map entity s)
   \<and> set (escapeHtml v) \<inter> {CHR ''<'', CHR ''>'', CHR 0x22, CHR 0x27} = {}
   \<and> (\<forall>i < length (escapeHtml v). escapeHtml v ! i = CHR ''&'' \<longrightarrow> entity_at (escapeHtml v) i)"
proof -
  have eq: "escapeHtml v = concat (map entity (toString v))"
    using escapeHtml_toString[of v] escapeHtml_Str[of "toString v"] by simp
  have "set (concat (map entity (toString v))) \<inter> {CHR ''<'', CHR ''>'', CHR 0x22, CHR 0x27} = {}"
    using entity_no_markup by auto
  with eq show ?thesis
    using escapeHtml_Str[of s] amp_concat_entity[of _ "toString v"] by simp
qed

theorem escapeHtml_entities_witness:
  "escapeHtml (JStr ''a&<'') = ''a&amp;&lt;''
   \<and> (1::nat) < length ''a&amp;&lt;'' \<and> ''a&amp;&lt;'' ! 1 = CHR ''&''
   \<and> entity_at ''a&amp;&lt;'' 1"
proof -
  have e: "escapeHtml (JStr ''a&<'') = ''a&amp;&lt;''"
    by (simp add: escapeHtml_def)
  from escapeHtml_entities[of "JStr ''a&<''" "[]"]
  have "\<forall>i < length (escapeHtml (JStr ''a&<'')). escapeHtml (JStr ''a&<'') ! i = CHR ''&''
          \<longrightarrow> entity_at (escapeHtml (JStr ''a&<'')) i"
    by blast
  then have "entity_at ''a&amp;&lt;'' 1"
    unfolding e by simp
  with e show ?thesis by simp
qed

section \<open>The redirect guard\<close>

lemma fetches_simps [simp]:
  "fetches (w\<lparr>trace := trace w @ [Fetch r]\<rparr>) = fetches w @ [r]"
  "fetches (w\<lparr>trace := trace w @ [Navigate u]\<rparr>) = fetches w"
  "fetches (w\<lparr>localStorage := ls\<rparr>) = fetches w"
  "fetches (w\<lparr>sessionStorage := ss\<rparr>) = fetches w"
  by (simp_all add: fetches_def)

lemma navigations_simps [simp]:
  "navigations (w\<lparr>trace := trace w @ [Fetch r]\<rparr>) = navigations w"
  "navigations (w\<lparr>trace := trace w @ [Navigate u]\<rparr>) = navigations w @ [u]"
  "navigations (w\<lparr>localStorage := ls\<rparr>) = navigations w"
  "navigations (w\<lparr>sessionStorage := ss\<rparr>) = navigations w"
  by (simp_all add: navigations_def)

lemma redirectLogin_flag_set: "sessionStorage w redirecting = Some ''1'' \<Longrightarrow> redirectLogin pg w = w"
  by (simp add: redirectLogin_def)

lemma redirectLogin_sets_flag: "sessionStorage (redirectLogin pg w) redirecting = Some ''1''"
  by (simp add: redirectLogin_def)

lemma redirectLogin_localStorage [simp]: "localStorage (redirectLogin pg w) = localStorage w"
  by (simp add: redirectLogin_def)

lemma redirectLogin_fetches [simp]: "fetches (redirectLogin pg w) = fetches w"
  by (simp add: redirectLogin_def fetches_def)

lemma redirectLogin_navigations:
  "navigations (redirectLogin pg w) =
     navigations w @ (if sessionStorage w redirecting = Some ''1'' then [] else [login_target pg])"
  by (simp add: redirectLogin_def navigations_def)

lemma redirectLogin_sessionStorage:
  "sessionStorage (redirectLogin pg w) = (sessionStorage w)(redirecting \<mapsto> ''1'')"
  by (auto simp: redirectLogin_def)

lemma same_nav_refl [simp]: "same_nav w w"
  by (simp add: same_nav_def)

lemma same_nav_redirect:
  "same_nav w' w \<Longrightarrow> same_nav (redirectLogin pg w') (redirectLogin pg w)"
  by (simp add: same_nav_def redirectLogin_sessionStorage redirectLogin_navigations)

lemma same_nav_localStorage [simp]: "same_nav (w\<lparr>localStorage := ls\<rparr>) w"
  by (simp add: same_nav_def)

lemma settle_ensureAccessToken:
  "settle pg (Ensure_called now net) w = snd (ensureAccessToken pg now net w)"
  by (simp add: settle_def ensureAccessToken_def Let_def logged_def
      split: fetch_result.splits option.splits prod.splits sum.splits)

lemma settle_fetchMe:
  "settle pg (Me_called net tok) w = snd (fetchMe pg net tok w)"
  by (simp add: settle_def fetchMe_def Let_def logged_def
      split: fetch_result.splits option.splits prod.splits sum.splits)

lemma settle_onLogout:
  "settle pg (Logout_called net) w = onLogout pg net w"
  by (simp add: settle_def onLogout_def Let_def logged_def
      split: fetch_result.splits option.splits prod.splits sum.splits)

lemma same_nav_logged [simp]: "same_nav (logged r w) w"
  by (simp add: logged_def same_nav_def)

lemma resume_nav:
  "same_nav (snd (resume pg t w)) w \<or> same_nav (snd (resume pg t w)) (redirectLogin pg w)"
proof -
  have b: "same_nav (redirectLogin pg (w\<lparr>localStorage := ls\<rparr>)) (redirectLogin pg w)" for ls
    by (rule same_nav_redirect) (simp add: same_nav_def)
  show ?thesis
  proof (cases t)
    case (Ensure_fetching a)
    then show ?thesis by (cases a) simp_all
  next
    case (Ensure_parsing b')
    then show ?thesis using b
      by (cases b') (auto split: prod.splits sum.splits)
  next
    case (Me_fetching a)
    then show ?thesis by (cases a) simp_all
  next
    case (Me_parsing b')
    then show ?thesis by (cases b') (auto split: option.splits)
  qed (use b in simp_all)
qed

lemma interleave_navigations:
  "\<exists>us. navigations (snd (interleave pg sched ts w)) = navigations w @ us \<and> length us \<le> 1
        \<and> set us \<subseteq> {login_target pg}
        \<and> (sessionStorage w redirecting = Some ''1'' \<longrightarrow> us = [])"
proof (induction sched arbitrary: ts w)
  case Nil
  then show ?case by simp
next
  case (Cons i sched)
  show ?case
  proof (cases "i < length ts")
    case False
    then show ?thesis using Cons.IH[of ts w] by simp
  next
    case True
    let ?w' = "snd (resume pg (ts ! i) w)"
    let ?ts' = "ts[i := fst (resume pg (ts ! i) w)]"
    from Cons.IH[of ?ts' ?w'] obtain us where us:
      "navigations (snd (interleave pg sched ?ts' ?w')) = navigations ?w' @ us" "length us \<le> 1"
      "set us \<subseteq> {login_target pg}" "sessionStorage ?w' redirecting = Some ''1'' \<longrightarrow> us = []"
      by blast
    from resume_nav[of pg "ts ! i" w] show ?thesis
    proof
      assume "same_nav ?w' w"
      with us True show ?thesis by (auto simp: same_nav_def)
    next
      assume r: "same_nav ?w' (redirectLogin pg w)"
      then have "us = []"
        using us(4) by (simp add: same_nav_def redirectLogin_sets_flag)
      with r us(1) True show ?thesis
        by (simp add: same_nav_def redirectLogin_navigations)
    qed
  qed
qed

lemma searchParams_set_filter:
  "filter (\<lambda>q. fst q = k) (searchParams_set k v ps) = [(k, v)]"
  by (induction ps) (auto simp: filter_empty_conv)

text \<open>
  Claim C6. \<open>redirectLogin\<close> is one-shot: with the flag set it changes nothing; it
  always leaves the flag set; it navigates exactly when the flag was not set, and then to
  the login address with the parameter \<open>from=home\<close>. Hence any number of calls of
  \<open>ensureAccessToken\<close>, \<open>fetchMe\<close> and \<open>onLogout\<close>, overlapping in any order and whatever
  the network answers, add at most one navigation, to that address, and none when the
  flag is already set. (A call run alone to its end is the function of the same name;
  the flag is removed by the page's \<^verbatim>\<open>init\<close> alone, once a profile has been fetched, and
  \<^verbatim>\<open>init\<close> is not one of these calls.)
\<close>

theorem redirectLogin_one_shot:
  "(sessionStorage w redirecting = Some ''1'' \<longrightarrow> redirectLogin pg w = w)
   \<and> sessionStorage (redirectLogin pg w) redirecting = Some ''1''
   \<and> navigations (redirectLogin pg w) =
       navigations w @ (if sessionStorage w redirecting = Some ''1'' then [] else [login_target pg])
   \<and> (\<exists>us. navigations (snd (interleave pg sched ts w)) = navigations w @ us \<and> length us \<le> 1
            \<and> set us \<subseteq> {login_target pg}
            \<and> (sessionStorage w redirecting = Some ''1'' \<longrightarrow> us = []))
   \<and> settle pg (Ensure_called now net) w = snd (ensureAccessToken pg now net w)
   \<and> settle pg (Me_called net tok) w = snd (fetchMe pg net tok w)
   \<and> settle pg (Logout_called net) w = onLogout pg net w
   \<and> href (login_target pg) = href (LOGIN_URL pg)
   \<and> filter (\<lambda>q. fst q = ''from'') (searchParams (login_target pg)) = [(''from'', ''home'')]"
  using redirectLogin_flag_set[of w pg] redirectLogin_sets_flag[of pg w]
    redirectLogin_navigations[of pg w] interleave_navigations[of pg sched ts w]
    searchParams_set_filter[of "''from''" "''home''" "searchParams (LOGIN_URL pg)"]
  by (simp add: login_target_def settle_ensureAccessToken settle_fetchMe settle_onLogout)

theorem redirectLogin_one_shot_witness:
  "sessionStorage (redirectLogin example_page session_refreshable) redirecting = Some ''1''
   \<and> redirectLogin example_page (redirectLogin example_page session_refreshable)
       = redirectLogin example_page session_refreshable
   \<and> navigations (snd (interleave example_page [0, 1, 0, 1]
         [Ensure_called 1000 net_401, Ensure_called 1000 net_401]
         (redirectLogin example_page session_refreshable)))
       = navigations (redirectLogin example_page session_refreshable)"
proof -
  let ?w = "redirectLogin example_page session_refreshable"
  have flag: "sessionStorage ?w redirecting = Some ''1''"
    by (simp add: redirectLogin_def session_refreshable_def)
  from redirectLogin_one_shot[of ?w example_page "[0, 1, 0, 1]"
      "[Ensure_called 1000 net_401, Ensure_called 1000 net_401]"] flag
  show ?thesis by auto
qed

section \<open>Logout\<close>

lemma clearTokens_apply:
  "clearTokens ls k =
     (if k \<in> {LS_access, LS_accessExp, LS_refresh, LS_refreshExp, LS_me} then None else ls k)"
  by (simp add: clearTokens_def removeItem_def)

lemma onLogout_eq:
  "onLogout pg net w =
     redirectLogin pg
       ((if getAT (localStorage w) = [] then w
         else w\<lparr>trace := trace w @ [Fetch (logout_request pg (getAT (localStorage w)))]\<rparr>)
        \<lparr>localStorage := clearTokens (localStorage w)\<rparr>)"
  by (cases "net (logout_request pg (getAT (localStorage w)))") (simp_all add: onLogout_def Let_def)

text \<open>
  Claim C3, as amended. For every starting state and whatever the logout endpoint does,
  also when the call throws, \<open>onLogout\<close> removes the five keys of \<^verbatim>\<open>localStorage\<close> (the two
  token legs, their two expiries, the cached profile) and then calls \<open>redirectLogin\<close>: the
  redirect flag is not cleared but is \<open>1\<close> afterwards, and the page navigates to the
  login address unless the flag was already set. The only request is the one to the
  logout endpoint, made when an access token is cached, and its outcome changes nothing.
\<close>

theorem onLogout_erases_local:
  "localStorage (onLogout pg net w) = clearTokens (localStorage w)
   \<and> (\<forall>k \<in> {LS_access, LS_accessExp, LS_refresh, LS_refreshExp, LS_me}.
        localStorage (onLogout pg net w) k = None)
   \<and> sessionStorage (onLogout pg net w) = (sessionStorage w)(redirecting \<mapsto> ''1'')
   \<and> navigations (onLogout pg net w) =
       navigations w @ (if sessionStorage w redirecting = Some ''1'' then [] else [login_target pg])
   \<and> fetches (onLogout pg net w) =
       fetches w @ (if getAT (localStorage w) = [] then []
                    else [logout_request pg (getAT (localStorage w))])
   \<and> onLogout pg net w = onLogout pg net' w"
proof -
  have "onLogout pg net w = onLogout pg net' w"
    by (simp only: onLogout_eq)
  then show ?thesis
    by (simp add: onLogout_eq redirectLogin_sessionStorage redirectLogin_navigations clearTokens_apply)
qed

theorem onLogout_erases_local_witness:
  "LS_refresh \<in> {LS_access, LS_accessExp, LS_refresh, LS_refreshExp, LS_me}
   \<and> localStorage session_refreshable LS_refresh = Some ''R1''
   \<and> localStorage (onLogout example_page net_down session_refreshable) LS_refresh = None"
proof -
  have "\<forall>k \<in> {LS_access, LS_accessExp, LS_refresh, LS_refreshExp, LS_me}.
          localStorage (onLogout example_page net_down session_refreshable) k = None"
    using onLogout_erases_local[of example_page net_down session_refreshable net_401,
        THEN conjunct2, THEN conjunct1] .
  then have "localStorage (onLogout example_page net_down session_refreshable) LS_refresh = None"
    by simp
  then show ?thesis
    by (simp add: session_refreshable_def)
qed

text \<open>
  Claim C3 as stated fails in a tab whose redirect flag is already set: a logout that
  cleared the flag and then redirected would navigate to the login page, while
  \<open>onLogout\<close> leaves the flag set and does not navigate.
\<close>

theorem onLogout_flag_set_counterexample:
  "sessionStorage session_redirected redirecting = Some ''1''
   \<and> navigations session_redirected = []
   \<and> navigations (logout_as_claimed example_page net_down session_redirected)
       = [login_target example_page]
   \<and> navigations (onLogout example_page net_down session_redirected) = []
   \<and> sessionStorage (onLogout example_page net_down session_redirected) redirecting = Some ''1''"
proof -
  have s: "sessionStorage session_redirected redirecting = Some ''1''"
    "navigations session_redirected = []"
    by (simp_all add: session_redirected_def session_refreshable_def navigations_def)
  have c: "navigations (logout_as_claimed example_page net_down session_redirected)
       = [login_target example_page]"
    using s(2)
    by (simp add: logout_as_claimed_def Let_def redirectLogin_navigations removeItem_def logged_def)
  have n: "navigations (onLogout example_page net_down session_redirected) = []"
    using s by (simp add: onLogout_eq redirectLogin_navigations)
  have f: "sessionStorage (onLogout example_page net_down session_redirected) redirecting = Some ''1''"
    by (simp add: onLogout_eq redirectLogin_sessionStorage)
  from s c n f show ?thesis by simp
qed

section \<open>ensureAccessToken without a refresh token\<close>

lemma session_expired_invalid:
  "\<not> hasValidAT 1000 (localStorage session_expired)"
  "\<not> hasValidRT 1000 (localStorage session_expired)"
  by (simp_all add: hasValidAT_def hasValidRT_def getAT_def getATExp_def getRT_def getRTExp_def
      parseInt_def isWhiteSpace_def isDigit_def digits_value_def session_expired_def)

lemma session_refreshable_valid:
  "\<not> hasValidAT 1000 (localStorage session_refreshable)"
  "hasValidRT 1000 (localStorage session_refreshable)"
  by (simp_all add: hasValidAT_def hasValidRT_def getAT_def getATExp_def getRT_def getRTExp_def
      parseInt_def isWhiteSpace_def isDigit_def digits_value_def session_refreshable_def)

lemma session_access_only_valid:
  "hasValidAT 1000 (localStorage session_access_only)"
  "\<not> hasValidRT 1000 (localStorage session_access_only)"
  by (simp_all add: hasValidAT_def hasValidRT_def getAT_def getATExp_def getRT_def getRTExp_def
      parseInt_def isWhiteSpace_def isDigit_def digits_value_def session_access_only_def)

lemma session_refresh_only_valid:
  "\<not> hasValidAT 1000 (localStorage session_refresh_only)"
  "hasValidRT 1000 (localStorage session_refresh_only)"
  by (simp_all add: hasValidAT_def hasValidRT_def getAT_def getATExp_def getRT_def getRTExp_def
      parseInt_def isWhiteSpace_def isDigit_def digits_value_def session_refresh_only_def)

text \<open>
  Claim C7, as amended. When no valid refresh token is cached, \<open>ensureAccessToken\<close> makes
  no network call; if the cached access token is not valid either, it calls
  \<open>redirectLogin\<close> and returns the empty string; if the cached access token is valid, it
  returns that token and does not redirect.
\<close>

theorem ensureAccessToken_no_refresh_token:
  "\<not> hasValidRT now (localStorage w) \<Longrightarrow>
     fetches (snd (ensureAccessToken pg now net w)) = fetches w
     \<and> (\<not> hasValidAT now (localStorage w) \<longrightarrow>
          ensureAccessToken pg now net w = (JStr [], redirectLogin pg w))
     \<and> (hasValidAT now (localStorage w) \<longrightarrow>
          ensureAccessToken pg now net w = (JStr (getAT (localStorage w)), w))"
  by (simp add: ensureAccessToken_def)

theorem ensureAccessToken_no_refresh_token_witness:
  "\<not> hasValidRT 1000 (localStorage session_expired)
   \<and> \<not> hasValidAT 1000 (localStorage session_expired)
   \<and> ensureAccessToken example_page 1000 net_access_leg session_expired
       = (JStr [], redirectLogin example_page session_expired)
   \<and> fetches (snd (ensureAccessToken example_page 1000 net_access_leg session_expired)) = []"
  using ensureAccessToken_no_refresh_token[of 1000 session_expired example_page net_access_leg]
    session_expired_invalid
  by (simp add: fetches_def session_expired_def)

text \<open>
  Claim C7 as stated fails for a session with a valid access token and no refresh token:
  the token is returned and nothing redirects.
\<close>

theorem ensureAccessToken_no_refresh_token_counterexample:
  "\<not> hasValidRT 1000 (localStorage session_access_only)
   \<and> localStorage session_access_only LS_refresh = None
   \<and> fst (ensureAccessToken example_page 1000 net_down session_access_only) = JStr ''T1''
   \<and> navigations (snd (ensureAccessToken example_page 1000 net_down session_access_only)) = []
   \<and> sessionStorage (snd (ensureAccessToken example_page 1000 net_down session_access_only)) redirecting = None"
  using session_access_only_valid
  by (simp add: ensureAccessToken_def getAT_def navigations_def session_access_only_def)

section \<open>Refreshing the access token\<close>

lemma getProp_field: "data \<noteq> JNull \<Longrightarrow> data \<noteq> JUndefined \<Longrightarrow> getProp data k = Inr (field data k)"
  by (cases data) (simp_all add: field_def split: option.splits)

lemma saveTokens_access_leg:
  assumes "data \<noteq> JNull" "data \<noteq> JUndefined"
    and "\<not> (truthy (field data ''refresh_token'') \<and> truthy (field data ''refresh_expires_at''))"
    and "quota pg ls LS_access (toString (field data ''access_token''))"
    and "quota pg (ls(LS_access \<mapsto> toString (field data ''access_token'')))
           LS_accessExp (toString (field data ''access_expires_at''))"
  shows "saveTokens pg data ls =
           (Inr (), ls(LS_access \<mapsto> toString (field data ''access_token''),
                       LS_accessExp \<mapsto> toString (field data ''access_expires_at'')))"
  using assms by (auto simp: saveTokens_def setItem_def getProp_field)

lemma saveTokens_both_legs:
  assumes "data \<noteq> JNull" "data \<noteq> JUndefined"
    and "truthy (field data ''refresh_token'')" "truthy (field data ''refresh_expires_at'')"
    and "\<forall>st k v. quota pg st k v"
  shows "saveTokens pg data ls =
           (Inr (), ls(LS_access \<mapsto> toString (field data ''access_token''),
                       LS_accessExp \<mapsto> toString (field data ''access_expires_at''),
                       LS_refresh \<mapsto> toString (field data ''refresh_token''),
                       LS_refreshExp \<mapsto> toString (field data ''refresh_expires_at'')))"
  using assms by (simp add: saveTokens_def setItem_def getProp_field)

lemma ensureAccessToken_refresh_ok:
  assumes "\<not> hasValidAT now (localStorage w)" "hasValidRT now (localStorage w)"
    and "net (refresh_request pg (getRT (localStorage w))) = Resolved resp" "ok resp"
    and "json_body resp = Some data" "data \<noteq> JNull" "data \<noteq> JUndefined"
    and "saveTokens pg data (localStorage w) = (Inr (), ls')"
  shows "ensureAccessToken pg now net w =
           (field data ''access_token'',
            logged (refresh_request pg (getRT (localStorage w))) w\<lparr>localStorage := ls'\<rparr>)"
  using assms by (simp add: ensureAccessToken_def Let_def getProp_field logged_def)

lemma ensureAccessToken_refresh_failed:
  assumes "\<not> hasValidAT now (localStorage w)" "hasValidRT now (localStorage w)"
    and "net (refresh_request pg (getRT (localStorage w))) = Rejected
         \<or> (\<exists>resp. net (refresh_request pg (getRT (localStorage w))) = Resolved resp \<and> \<not> ok resp)"
  shows "ensureAccessToken pg now net w =
           (JStr [], redirectLogin pg (logged (refresh_request pg (getRT (localStorage w))) w))"
  using assms by (auto simp: ensureAccessToken_def Let_def logged_def)

text \<open>
  Claim C5. Let the cached access token be invalid and the refresh token valid, let the
  refresh endpoint answer with a success status and a body, not \<^verbatim>\<open>null\<close>, that lacks
  \<^verbatim>\<open>refresh_token\<close> or \<^verbatim>\<open>refresh_expires_at\<close>, and let the storage accept the two writes.
  Then persisting the body with \<open>saveTokens\<close> overwrites only the access token and its
  expiry, \<open>ensureAccessToken\<close> returns the \<^verbatim>\<open>access_token\<close> field of the body, and the
  cached refresh token and its expiry are what they were.
\<close>

theorem refresh_without_refresh_token:
  assumes "\<not> hasValidAT now (localStorage w)" and "hasValidRT now (localStorage w)"
    and "net (refresh_request pg (getRT (localStorage w))) = Resolved resp"
    and "ok resp" and "json_body resp = Some data"
    and "data \<noteq> JNull" and "data \<noteq> JUndefined"
    and "field data ''refresh_token'' = JUndefined \<or> field data ''refresh_expires_at'' = JUndefined"
    and "quota pg (localStorage w) LS_access (toString (field data ''access_token''))"
    and "quota pg ((localStorage w)(LS_access \<mapsto> toString (field data ''access_token'')))
           LS_accessExp (toString (field data ''access_expires_at''))"
  shows "saveTokens pg data (localStorage w) =
        (Inr (), (localStorage w)(LS_access \<mapsto> toString (field data ''access_token''),
                                  LS_accessExp \<mapsto> toString (field data ''access_expires_at'')))
    \<and> fst (ensureAccessToken pg now net w) = field data ''access_token''
    \<and> localStorage (snd (ensureAccessToken pg now net w)) =
        (localStorage w)(LS_access \<mapsto> toString (field data ''access_token''),
                         LS_accessExp \<mapsto> toString (field data ''access_expires_at''))
    \<and> localStorage (snd (ensureAccessToken pg now net w)) LS_refresh = localStorage w LS_refresh
    \<and> localStorage (snd (ensureAccessToken pg now net w)) LS_refreshExp = localStorage w LS_refreshExp"
proof -
  from assms(8) have "\<not> (truthy (field data ''refresh_token'') \<and> truthy (field data ''refresh_expires_at''))"
    by auto
  from saveTokens_access_leg[OF assms(6,7) this assms(9,10)]
  have st: "saveTokens pg data (localStorage w) =
          (Inr (), (localStorage w)(LS_access \<mapsto> toString (field data ''access_token''),
                  LS_accessExp \<mapsto> toString (field data ''access_expires_at'')))" .
  have "ensureAccessToken pg now net w =
          (field data ''access_token'',
           logged (refresh_request pg (getRT (localStorage w))) w
             \<lparr>localStorage := (localStorage w)(LS_access \<mapsto> toString (field data ''access_token''),
                  LS_accessExp \<mapsto> toString (field data ''access_expires_at''))\<rparr>)"
    by (rule ensureAccessToken_refresh_ok[where resp = resp]) (rule assms st)+
  with st show ?thesis by simp
qed

theorem refresh_without_refresh_token_witness:
  "\<not> hasValidAT 1000 (localStorage session_refresh_only)
   \<and> hasValidRT 1000 (localStorage session_refresh_only)
   \<and> net_access_leg (refresh_request example_page (getRT (localStorage session_refresh_only)))
       = Resolved (Response 200 (Some access_leg))
   \<and> ok (Response 200 (Some access_leg))
   \<and> field access_leg ''refresh_token'' = JUndefined
   \<and> fst (ensureAccessToken example_page 1000 net_access_leg session_refresh_only) = JStr ''T2''
   \<and> localStorage (snd (ensureAccessToken example_page 1000 net_access_leg session_refresh_only)) LS_access
       = Some ''T2''
   \<and> localStorage (snd (ensureAccessToken example_page 1000 net_access_leg session_refresh_only)) LS_refresh
       = Some ''R1''
   \<and> localStorage (snd (ensureAccessToken example_page 1000 net_access_leg session_refresh_only)) LS_refreshExp
       = Some ''90000''"
proof -
  have h: "net_access_leg (refresh_request example_page (getRT (localStorage session_refresh_only)))
       = Resolved (Response 200 (Some access_leg))"
    "ok (Response 200 (Some access_leg))" "json_body (Response 200 (Some access_leg)) = Some access_leg"
    "access_leg \<noteq> JNull" "access_leg \<noteq> JUndefined"
    "field access_leg ''refresh_token'' = JUndefined \<or> field access_leg ''refresh_expires_at'' = JUndefined"
    by (simp_all add: net_access_leg_def ok_def access_leg_def field_def)
  have f: "field access_leg ''refresh_token'' = JUndefined"
    "field access_leg ''access_token'' = JStr ''T2''"
    by (simp_all add: access_leg_def field_def)
  have s: "localStorage session_refresh_only LS_refresh = Some ''R1''"
    "localStorage session_refresh_only LS_refreshExp = Some ''90000''"
    by (simp_all add: session_refresh_only_def)
  have q: "quota example_page st k v" for st k v
    by (simp add: example_page_def)
  from refresh_without_refresh_token[where net = net_access_leg and pg = example_page
      and resp = "Response 200 (Some access_leg)", OF session_refresh_only_valid h(1-6) q q]
  show ?thesis
    using session_refresh_only_valid h(1,2) f s by simp
qed


section \<open>The profile\<close>

lemma fetchMe_rejected_status:
  "net (me_request pg tok) = Resolved res \<Longrightarrow> \<not> ok res \<Longrightarrow>
     fetchMe pg net tok w = (Inr JNull, redirectLogin pg (logged (me_request pg tok) w))"
  by (simp add: fetchMe_def Let_def logged_def)

lemma fetchMe_profile:
  "net (me_request pg tok) = Resolved res \<Longrightarrow> ok res \<Longrightarrow> json_body res = Some me \<Longrightarrow>
     fetchMe pg net tok w =
       (Inr me,
        if quota pg (localStorage w) LS_me (JSON_stringify pg me)
        then logged (me_request pg tok) w
               \<lparr>localStorage := (localStorage w)(LS_me \<mapsto> JSON_stringify pg me)\<rparr>
        else logged (me_request pg tok) w)"
  by (simp add: fetchMe_def Let_def logged_def setItem_def)

lemma fetchMe_fetches: "fetches (snd (fetchMe pg net tok w)) = fetches w @ [me_request pg tok]"
  by (simp add: fetchMe_def Let_def split: fetch_result.splits option.splits)

lemma logged_simps [simp]:
  "localStorage (logged r w) = localStorage w"
  "sessionStorage (logged r w) = sessionStorage w"
  "fetches (logged r w) = fetches w @ [r]"
  "navigations (logged r w) = navigations w"
  by (simp_all add: logged_def)

text \<open>
  Claim C8. For every token, \<open>fetchMe\<close> sends one request, to the profile endpoint, with
  the header \<^verbatim>\<open>Authorization: Bearer\<close> followed by the token. On a status outside
  200..299 it calls \<open>redirectLogin\<close> and returns \<^verbatim>\<open>null\<close>. On a success status with a
  JSON body it returns the body, and the body's serialisation is cached under \<^verbatim>\<open>auth.me\<close>
  when the storage accepts the write; when it does not, nothing is thrown, the storage
  stays as it was and the body is returned all the same.
\<close>

theorem fetchMe_behaviour:
  "fetches (snd (fetchMe pg net tok w)) = fetches w @ [me_request pg tok]
   \<and> req_headers (me_request pg tok) = [(''Authorization'', ''Bearer '' @ toString tok)]
   \<and> (\<forall>res. net (me_request pg tok) = Resolved res \<and> \<not> ok res \<longrightarrow>
         fetchMe pg net tok w = (Inr JNull, redirectLogin pg (logged (me_request pg tok) w)))
   \<and> (\<forall>res me. net (me_request pg tok) = Resolved res \<and> ok res \<and> json_body res = Some me \<longrightarrow>
         fetchMe pg net tok w =
           (Inr me,
            if quota pg (localStorage w) LS_me (JSON_stringify pg me)
            then logged (me_request pg tok) w
                   \<lparr>localStorage := (localStorage w)(LS_me \<mapsto> JSON_stringify pg me)\<rparr>
            else logged (me_request pg tok) w))"
  using fetchMe_fetches[of pg net tok w] fetchMe_rejected_status[of net pg tok _ w]
    fetchMe_profile[of net pg tok _ _ w]
  by (simp add: me_request_def)

theorem fetchMe_behaviour_witness:
  "net_401 (me_request example_page (JStr ''T1'')) = Resolved (Response 401 None)
   \<and> \<not> ok (Response 401 None)
   \<and> fst (fetchMe example_page net_401 (JStr ''T1'') session_access_only) = Inr JNull
   \<and> navigations (snd (fetchMe example_page net_401 (JStr ''T1'') session_access_only))
       = [login_target example_page]
   \<and> net_profile (me_request example_page (JStr ''T1''))
       = Resolved (Response 200 (Some (JObj [(''username'', JStr ''henry'')])))
   \<and> ok (Response 200 (Some (JObj [(''username'', JStr ''henry'')])))
   \<and> fst (fetchMe example_page net_profile (JStr ''T1'') session_access_only)
       = Inr (JObj [(''username'', JStr ''henry'')])
   \<and> localStorage (snd (fetchMe example_page net_profile (JStr ''T1'') session_access_only)) LS_me
       = Some (json_text (JObj [(''username'', JStr ''henry'')]))
   \<and> fst (fetchMe full_storage_page net_profile (JStr ''T1'') session_access_only)
       = Inr (JObj [(''username'', JStr ''henry'')])
   \<and> localStorage (snd (fetchMe full_storage_page net_profile (JStr ''T1'') session_access_only)) LS_me
       = None"
proof -
  let ?me = "JObj [(''username'', JStr ''henry'')]"
  have a: "net_401 (me_request example_page (JStr ''T1'')) = Resolved (Response 401 None)"
    "\<not> ok (Response 401 None)"
    by (simp_all add: net_401_def ok_def)
  have b: "net_profile r = Resolved (Response 200 (Some ?me))" "ok (Response 200 (Some ?me))"
    "json_body (Response 200 (Some ?me)) = Some ?me" for r
    by (simp_all add: net_profile_def ok_def)
  have q: "quota example_page st k v" "\<not> quota full_storage_page st k v"
    "JSON_stringify example_page = json_text" for st k v
    by (simp_all add: example_page_def full_storage_page_def)
  have s: "sessionStorage session_access_only redirecting = None"
    "navigations session_access_only = []" "localStorage session_access_only LS_me = None"
    by (simp_all add: session_access_only_def navigations_def)
  from fetchMe_behaviour[of example_page net_401 "JStr ''T1''" session_access_only] a
  have 1: "fetchMe example_page net_401 (JStr ''T1'') session_access_only =
      (Inr JNull, redirectLogin example_page (logged (me_request example_page (JStr ''T1'')) session_access_only))"
    by blast
  from fetchMe_behaviour[of example_page net_profile "JStr ''T1''" session_access_only] b q
  have 2: "fetchMe example_page net_profile (JStr ''T1'') session_access_only =
      (Inr ?me, logged (me_request example_page (JStr ''T1'')) session_access_only
          \<lparr>localStorage := (localStorage session_access_only)(LS_me \<mapsto> json_text ?me)\<rparr>)"
    by simp
  from fetchMe_behaviour[of full_storage_page net_profile "JStr ''T1''" session_access_only] b q
  have 3: "fetchMe full_storage_page net_profile (JStr ''T1'') session_access_only =
      (Inr ?me, logged (me_request full_storage_page (JStr ''T1'')) session_access_only)"
    by simp
  show ?thesis
    unfolding 1 2 3 using a b s by (simp add: redirectLogin_navigations)
qed

section \<open>What an authentication failure leaves in the cache\<close>

text \<open>
  Claim C2, as amended. On each irrecoverable failure (no valid refresh token when the
  access token is invalid; the refresh call rejected by the server or by the network;
  the profile call rejected by the server) the guard calls \<open>redirectLogin\<close> and
  \<^verbatim>\<open>localStorage\<close> is exactly what it was: nothing of the cached session is erased. Only
  a logout erases it.
\<close>

theorem auth_failure_keeps_cache:
  "(\<not> hasValidAT now (localStorage w) \<and> \<not> hasValidRT now (localStorage w) \<longrightarrow>
      ensureAccessToken pg now net w = (JStr [], redirectLogin pg w)
      \<and> localStorage (snd (ensureAccessToken pg now net w)) = localStorage w)
   \<and> (\<not> hasValidAT now (localStorage w) \<and> hasValidRT now (localStorage w)
       \<and> (net (refresh_request pg (getRT (localStorage w))) = Rejected
          \<or> (\<exists>resp. net (refresh_request pg (getRT (localStorage w))) = Resolved resp \<and> \<not> ok resp)) \<longrightarrow>
      ensureAccessToken pg now net w =
        (JStr [], redirectLogin pg (logged (refresh_request pg (getRT (localStorage w))) w))
      \<and> localStorage (snd (ensureAccessToken pg now net w)) = localStorage w)
   \<and> ((\<exists>res. net (me_request pg tok) = Resolved res \<and> \<not> ok res) \<longrightarrow>
      fetchMe pg net tok w = (Inr JNull, redirectLogin pg (logged (me_request pg tok) w))
      \<and> localStorage (snd (fetchMe pg net tok w)) = localStorage w)"
proof (intro conjI impI)
  assume a: "\<not> hasValidAT now (localStorage w) \<and> \<not> hasValidRT now (localStorage w)"
  then show "ensureAccessToken pg now net w = (JStr [], redirectLogin pg w)"
    by (simp add: ensureAccessToken_def)
  then show "localStorage (snd (ensureAccessToken pg now net w)) = localStorage w"
    by simp
next
  assume a: "\<not> hasValidAT now (localStorage w) \<and> hasValidRT now (localStorage w)
       \<and> (net (refresh_request pg (getRT (localStorage w))) = Rejected
          \<or> (\<exists>resp. net (refresh_request pg (getRT (localStorage w))) = Resolved resp \<and> \<not> ok resp))"
  then show e: "ensureAccessToken pg now net w =
        (JStr [], redirectLogin pg (logged (refresh_request pg (getRT (localStorage w))) w))"
    using ensureAccessToken_refresh_failed[of now w net pg] by blast
  show "localStorage (snd (ensureAccessToken pg now net w)) = localStorage w"
    unfolding e by simp
next
  assume "\<exists>res. net (me_request pg tok) = Resolved res \<and> \<not> ok res"
  then show e: "fetchMe pg net tok w = (Inr JNull, redirectLogin pg (logged (me_request pg tok) w))"
    using fetchMe_rejected_status by blast
  show "localStorage (snd (fetchMe pg net tok w)) = localStorage w"
    unfolding e by simp
qed

theorem auth_failure_keeps_cache_witness:
  "\<not> hasValidAT 1000 (localStorage session_expired) \<and> \<not> hasValidRT 1000 (localStorage session_expired)
   \<and> localStorage (snd (ensureAccessToken example_page 1000 net_down session_expired)) LS_me = Some ''{}''
   \<and> \<not> hasValidAT 1000 (localStorage session_refreshable) \<and> hasValidRT 1000 (localStorage session_refreshable)
   \<and> net_401 (refresh_request example_page (getRT (localStorage session_refreshable)))
        = Resolved (Response 401 None)
   \<and> \<not> ok (Response 401 None)
   \<and> localStorage (snd (ensureAccessToken example_page 1000 net_401 session_refreshable)) LS_refresh = Some ''R1''
   \<and> net_401 (me_request example_page (JStr ''T1'')) = Resolved (Response 401 None)
   \<and> localStorage (snd (fetchMe example_page net_401 (JStr ''T1'') session_refreshable)) LS_access = Some ''T1''"
proof -
  have a: "net_401 r = Resolved (Response 401 None)" "\<not> ok (Response 401 None)" for r
    by (simp_all add: net_401_def ok_def)
  have s: "localStorage session_expired LS_me = Some ''{}''"
    "localStorage session_refreshable LS_refresh = Some ''R1''"
    "localStorage session_refreshable LS_access = Some ''T1''"
    by (simp_all add: session_expired_def session_refreshable_def)
  from auth_failure_keeps_cache[of 1000 session_expired example_page net_down] session_expired_invalid
  have 1: "localStorage (snd (ensureAccessToken example_page 1000 net_down session_expired))
             = localStorage session_expired"
    by blast
  from auth_failure_keeps_cache[of 1000 session_refreshable example_page net_401] session_refreshable_valid a
  have 2: "localStorage (snd (ensureAccessToken example_page 1000 net_401 session_refreshable))
             = localStorage session_refreshable"
    by blast
  from auth_failure_keeps_cache[of 1000 session_refreshable example_page net_401 "JStr ''T1''"] a
  have 3: "localStorage (snd (fetchMe example_page net_401 (JStr ''T1'') session_refreshable))
             = localStorage session_refreshable"
    by blast
  show ?thesis
    unfolding 1 2 3 using a s session_expired_invalid session_refreshable_valid by simp
qed

text \<open>
  Claim C2 as stated fails: after each of the three failures a cached key is still
  there, while a logout from the same session removes it.
\<close>

theorem auth_failure_erases_counterexample:
  "localStorage (snd (ensureAccessToken example_page 1000 net_down session_expired)) LS_access = Some ''T1''
   \<and> localStorage (snd (ensureAccessToken example_page 1000 net_401 session_refreshable)) LS_refresh = Some ''R1''
   \<and> localStorage (snd (fetchMe example_page net_401 (JStr ''T1'') session_refreshable)) LS_me = Some ''{}''
   \<and> localStorage (onLogout example_page net_down session_refreshable) LS_me = None"
proof -
  have a: "net_401 r = Resolved (Response 401 None)" "\<not> ok (Response 401 None)" for r
    by (simp_all add: net_401_def ok_def)
  have 1: "ensureAccessToken example_page 1000 net_down session_expired
            = (JStr [], redirectLogin example_page session_expired)"
    using session_expired_invalid by (simp add: ensureAccessToken_def)
  have 2: "ensureAccessToken example_page 1000 net_401 session_refreshable
            = (JStr [], redirectLogin example_page
                 (logged (refresh_request example_page (getRT (localStorage session_refreshable))) session_refreshable))"
    by (rule ensureAccessToken_refresh_failed) (use session_refreshable_valid a in auto)
  have 3: "fetchMe example_page net_401 (JStr ''T1'') session_refreshable
            = (Inr JNull, redirectLogin example_page (logged (me_request example_page (JStr ''T1'')) session_refreshable))"
    by (rule fetchMe_rejected_status) (rule a)+
  show ?thesis
    unfolding 1 2 3
    by (simp add: onLogout_eq clearTokens_apply) (simp add: session_expired_def session_refreshable_def)
qed


section \<open>The validity test of the access token\<close>














section \<open>ensureAccessToken, case by case\<close>

lemma saveTokens_accepted:
  assumes "data \<noteq> JNull" "data \<noteq> JUndefined" "writes_accepted pg data ls"
  shows "saveTokens pg data ls =
           (Inr (),
            if truthy (field data ''refresh_token'') \<and> truthy (field data ''refresh_expires_at'')
            then ls(LS_access \<mapsto> toString (field data ''access_token''),
                    LS_accessExp \<mapsto> toString (field data ''access_expires_at''),
                    LS_refresh \<mapsto> toString (field data ''refresh_token''),
                    LS_refreshExp \<mapsto> toString (field data ''refresh_expires_at''))
            else ls(LS_access \<mapsto> toString (field data ''access_token''),
                    LS_accessExp \<mapsto> toString (field data ''access_expires_at'')))"
  using assms by (auto simp: saveTokens_def setItem_def getProp_field writes_accepted_def Let_def)

lemma saveTokens_refused:
  assumes "data \<noteq> JNull" "data \<noteq> JUndefined" "\<not> writes_accepted pg data ls"
  shows "fst (saveTokens pg data ls) = Inl QuotaExceeded"
  using assms by (auto simp: saveTokens_def setItem_def getProp_field writes_accepted_def Let_def)

lemma saveTokens_null:
  "data = JNull \<or> data = JUndefined \<Longrightarrow> saveTokens pg data ls = (Inl TypeError, ls)"
  by (auto simp: saveTokens_def)

lemma logged_localStorage_same [simp]: "logged r w\<lparr>localStorage := localStorage w\<rparr> = logged r w"
  by (simp add: logged_def)

lemma ensureAccessToken_save_failed:
  assumes "\<not> hasValidAT now (localStorage w)" "hasValidRT now (localStorage w)"
    and "net (refresh_request pg (getRT (localStorage w))) = Resolved resp" "ok resp"
    and "json_body resp = Some data"
    and "fst (saveTokens pg data (localStorage w)) = Inl e"
  shows "ensureAccessToken pg now net w =
           (JStr [], redirectLogin pg
              (logged (refresh_request pg (getRT (localStorage w))) w
                 \<lparr>localStorage := snd (saveTokens pg data (localStorage w))\<rparr>))"
  using assms by (auto simp: ensureAccessToken_def Let_def logged_def split: prod.splits)

lemma ensureAccessToken_not_json:
  assumes "\<not> hasValidAT now (localStorage w)" "hasValidRT now (localStorage w)"
    and "net (refresh_request pg (getRT (localStorage w))) = Resolved resp" "ok resp"
    and "json_body resp = None \<or> json_body resp = Some JNull \<or> json_body resp = Some JUndefined"
  shows "ensureAccessToken pg now net w =
           (JStr [], redirectLogin pg (logged (refresh_request pg (getRT (localStorage w))) w))"
proof (cases "json_body resp")
  case None
  with assms show ?thesis by (simp add: ensureAccessToken_def Let_def logged_def)
next
  case (Some data)
  with assms(5) have d: "data = JNull \<or> data = JUndefined" by auto
  then have s: "saveTokens pg data (localStorage w) = (Inl TypeError, localStorage w)"
    by (rule saveTokens_null)
  show ?thesis
    using ensureAccessToken_save_failed[OF assms(1,2), where net = net and pg = pg and resp = resp
        and data = data and e = TypeError] assms(3,4) Some s
    by simp
qed

text \<open>
  Claim C1, as amended. A valid cached access token is returned and nothing else happens.
  Otherwise, without a valid refresh token, \<open>redirectLogin\<close> is called and the empty
  string returned. Otherwise the refresh request is sent. On a success response, a
  status in 200..299 with a JSON body other than \<^verbatim>\<open>null\<close> whose writes the storage accepts,
  \<^verbatim>\<open>access_token\<close> and \<^verbatim>\<open>access_expires_at\<close> are persisted, \<^verbatim>\<open>refresh_token\<close> and
  \<^verbatim>\<open>refresh_expires_at\<close> are persisted only when the body has both with truthy values, and
  the \<^verbatim>\<open>access_token\<close> of the body is returned. On any failure \<open>redirectLogin\<close> is called
  and the empty string returned: a rejected promise, a status outside 200..299, a body
  that is not JSON or is \<^verbatim>\<open>null\<close>, or a write the storage refuses (what was written before
  it stays written).
\<close>

theorem ensureAccessToken_cases:
  "(hasValidAT now (localStorage w) \<longrightarrow>
      ensureAccessToken pg now net w = (JStr (getAT (localStorage w)), w))
   \<and> (\<not> hasValidAT now (localStorage w) \<and> \<not> hasValidRT now (localStorage w) \<longrightarrow>
      ensureAccessToken pg now net w = (JStr [], redirectLogin pg w))
   \<and> (\<not> hasValidAT now (localStorage w) \<and> hasValidRT now (localStorage w)
       \<and> (net (refresh_request pg (getRT (localStorage w))) = Rejected
          \<or> (\<exists>resp. net (refresh_request pg (getRT (localStorage w))) = Resolved resp \<and> \<not> ok resp)) \<longrightarrow>
      ensureAccessToken pg now net w =
        (JStr [], redirectLogin pg (logged (refresh_request pg (getRT (localStorage w))) w)))
   \<and> (\<forall>resp. \<not> hasValidAT now (localStorage w) \<and> hasValidRT now (localStorage w)
       \<and> net (refresh_request pg (getRT (localStorage w))) = Resolved resp \<and> ok resp
       \<and> (json_body resp = None \<or> json_body resp = Some JNull \<or> json_body resp = Some JUndefined) \<longrightarrow>
      ensureAccessToken pg now net w =
        (JStr [], redirectLogin pg (logged (refresh_request pg (getRT (localStorage w))) w)))
   \<and> (\<forall>resp data. \<not> hasValidAT now (localStorage w) \<and> hasValidRT now (localStorage w)
       \<and> net (refresh_request pg (getRT (localStorage w))) = Resolved resp \<and> ok resp
       \<and> json_body resp = Some data \<and> data \<noteq> JNull \<and> data \<noteq> JUndefined
       \<and> \<not> writes_accepted pg data (localStorage w) \<longrightarrow>
      ensureAccessToken pg now net w =
        (JStr [],
         redirectLogin pg
           (logged (refresh_request pg (getRT (localStorage w))) w
              \<lparr>localStorage := snd (saveTokens pg data (localStorage w))\<rparr>)))
   \<and> (\<forall>resp data. \<not> hasValidAT now (localStorage w) \<and> hasValidRT now (localStorage w)
       \<and> net (refresh_request pg (getRT (localStorage w))) = Resolved resp \<and> ok resp
       \<and> json_body resp = Some data \<and> data \<noteq> JNull \<and> data \<noteq> JUndefined
       \<and> writes_accepted pg data (localStorage w) \<longrightarrow>
      ensureAccessToken pg now net w =
        (field data ''access_token'',
         logged (refresh_request pg (getRT (localStorage w))) w
           \<lparr>localStorage :=
              if truthy (field data ''refresh_token'') \<and> truthy (field data ''refresh_expires_at'')
              then (localStorage w)
                     (LS_access \<mapsto> toString (field data ''access_token''),
                      LS_accessExp \<mapsto> toString (field data ''access_expires_at''),
                      LS_refresh \<mapsto> toString (field data ''refresh_token''),
                      LS_refreshExp \<mapsto> toString (field data ''refresh_expires_at''))
              else (localStorage w)
                     (LS_access \<mapsto> toString (field data ''access_token''),
                      LS_accessExp \<mapsto> toString (field data ''access_expires_at''))\<rparr>))"
proof (intro conjI impI allI)
  assume "hasValidAT now (localStorage w)"
  then show "ensureAccessToken pg now net w = (JStr (getAT (localStorage w)), w)"
    by (simp add: ensureAccessToken_def)
next
  assume "\<not> hasValidAT now (localStorage w) \<and> \<not> hasValidRT now (localStorage w)"
  then show "ensureAccessToken pg now net w = (JStr [], redirectLogin pg w)"
    by (simp add: ensureAccessToken_def)
next
  assume "\<not> hasValidAT now (localStorage w) \<and> hasValidRT now (localStorage w)
       \<and> (net (refresh_request pg (getRT (localStorage w))) = Rejected
          \<or> (\<exists>resp. net (refresh_request pg (getRT (localStorage w))) = Resolved resp \<and> \<not> ok resp))"
  then show "ensureAccessToken pg now net w =
        (JStr [], redirectLogin pg (logged (refresh_request pg (getRT (localStorage w))) w))"
    using ensureAccessToken_refresh_failed[of now w net pg] by blast
next
  fix resp
  assume a: "\<not> hasValidAT now (localStorage w) \<and> hasValidRT now (localStorage w)
       \<and> net (refresh_request pg (getRT (localStorage w))) = Resolved resp \<and> ok resp
       \<and> (json_body resp = None \<or> json_body resp = Some JNull \<or> json_body resp = Some JUndefined)"
  show "ensureAccessToken pg now net w =
        (JStr [], redirectLogin pg (logged (refresh_request pg (getRT (localStorage w))) w))"
    by (rule ensureAccessToken_not_json[where resp = resp]) (use a in simp_all)
next
  fix resp data
  assume a: "\<not> hasValidAT now (localStorage w) \<and> hasValidRT now (localStorage w)
       \<and> net (refresh_request pg (getRT (localStorage w))) = Resolved resp \<and> ok resp
       \<and> json_body resp = Some data \<and> data \<noteq> JNull \<and> data \<noteq> JUndefined
       \<and> \<not> writes_accepted pg data (localStorage w)"
  then have "fst (saveTokens pg data (localStorage w)) = Inl QuotaExceeded"
    using saveTokens_refused[of data pg "localStorage w"] by simp
  then show "ensureAccessToken pg now net w =
        (JStr [],
         redirectLogin pg
           (logged (refresh_request pg (getRT (localStorage w))) w
              \<lparr>localStorage := snd (saveTokens pg data (localStorage w))\<rparr>))"
    by (intro ensureAccessToken_save_failed[where resp = resp and e = QuotaExceeded]) (use a in simp_all)
next
  fix resp data
  let ?ls = "localStorage w"
  let ?access = "?ls(LS_access \<mapsto> toString (field data ''access_token''),
                      LS_accessExp \<mapsto> toString (field data ''access_expires_at''))"
  let ?both = "?ls(LS_access \<mapsto> toString (field data ''access_token''),
                      LS_accessExp \<mapsto> toString (field data ''access_expires_at''),
                      LS_refresh \<mapsto> toString (field data ''refresh_token''),
                      LS_refreshExp \<mapsto> toString (field data ''refresh_expires_at''))"
  assume a: "\<not> hasValidAT now ?ls \<and> hasValidRT now ?ls
       \<and> net (refresh_request pg (getRT ?ls)) = Resolved resp \<and> ok resp
       \<and> json_body resp = Some data \<and> data \<noteq> JNull \<and> data \<noteq> JUndefined
       \<and> writes_accepted pg data ?ls"
  have st: "saveTokens pg data ?ls =
          (Inr (), if truthy (field data ''refresh_token'') \<and> truthy (field data ''refresh_expires_at'')
                   then ?both else ?access)"
    by (rule saveTokens_accepted) (use a in simp_all)
  show "ensureAccessToken pg now net w =
        (field data ''access_token'',
         logged (refresh_request pg (getRT ?ls)) w
           \<lparr>localStorage :=
              if truthy (field data ''refresh_token'') \<and> truthy (field data ''refresh_expires_at'')
              then ?both else ?access\<rparr>)"
    by (rule ensureAccessToken_refresh_ok[where resp = resp]) (use a st in simp_all)
qed


theorem ensureAccessToken_cases_witness:
  "hasValidAT 1000 (localStorage session_access_only)
   \<and> ensureAccessToken example_page 1000 net_down session_access_only = (JStr ''T1'', session_access_only)
   \<and> \<not> hasValidAT 1000 (localStorage session_expired) \<and> \<not> hasValidRT 1000 (localStorage session_expired)
   \<and> ensureAccessToken example_page 1000 net_down session_expired
        = (JStr [], redirectLogin example_page session_expired)
   \<and> \<not> hasValidAT 1000 (localStorage session_refreshable) \<and> hasValidRT 1000 (localStorage session_refreshable)
   \<and> net_401 (refresh_request example_page (getRT (localStorage session_refreshable)))
        = Resolved (Response 401 None)
   \<and> \<not> ok (Response 401 None)
   \<and> fst (ensureAccessToken example_page 1000 net_401 session_refreshable) = JStr []
   \<and> \<not> hasValidAT 1000 (localStorage session_refresh_only) \<and> hasValidRT 1000 (localStorage session_refresh_only)
   \<and> net_not_json (refresh_request example_page (getRT (localStorage session_refresh_only)))
        = Resolved (Response 200 None)
   \<and> ok (Response 200 None)
   \<and> fst (ensureAccessToken example_page 1000 net_not_json session_refresh_only) = JStr []
   \<and> net_null (refresh_request example_page (getRT (localStorage session_refresh_only)))
        = Resolved (Response 200 (Some JNull))
   \<and> fst (ensureAccessToken example_page 1000 net_null session_refresh_only) = JStr []
   \<and> net_access_leg (refresh_request full_storage_page (getRT (localStorage session_refresh_only)))
        = Resolved (Response 200 (Some access_leg))
   \<and> ok (Response 200 (Some access_leg))
   \<and> \<not> writes_accepted full_storage_page access_leg (localStorage session_refresh_only)
   \<and> fst (ensureAccessToken full_storage_page 1000 net_access_leg session_refresh_only) = JStr []
   \<and> writes_accepted example_page access_leg (localStorage session_refresh_only)
   \<and> fst (ensureAccessToken example_page 1000 net_access_leg session_refresh_only) = JStr ''T2''
   \<and> localStorage (snd (ensureAccessToken example_page 1000 net_access_leg session_refresh_only)) LS_access
        = Some ''T2''"
proof -
  let ?ro = "session_refresh_only"
  have a: "net_401 r = Resolved (Response 401 None)" "\<not> ok (Response 401 None)" for r
    by (simp_all add: net_401_def ok_def)
  have b: "net_access_leg r = Resolved (Response 200 (Some access_leg))"
    "ok (Response 200 (Some access_leg))"
    "json_body (Response 200 (Some access_leg)) = Some access_leg"
    "access_leg \<noteq> JNull" "access_leg \<noteq> JUndefined" for r
    by (simp_all add: net_access_leg_def ok_def access_leg_def)
  have c: "net_not_json r = Resolved (Response 200 None)" "ok (Response 200 None)"
    "json_body (Response 200 None) = None" for r
    by (simp_all add: net_not_json_def ok_def)
  have d: "net_null r = Resolved (Response 200 (Some JNull))" "ok (Response 200 (Some JNull))"
    "json_body (Response 200 (Some JNull)) = Some JNull" for r
    by (simp_all add: net_null_def ok_def)
  have f: "field access_leg ''access_token'' = JStr ''T2''"
    "field access_leg ''refresh_token'' = JUndefined"
    by (simp_all add: access_leg_def field_def)
  have q: "writes_accepted example_page access_leg (localStorage ?ro)"
    "\<not> writes_accepted full_storage_page access_leg (localStorage ?ro)"
    by (simp_all add: writes_accepted_def Let_def example_page_def full_storage_page_def)
  have g: "getAT (localStorage session_access_only) = ''T1''"
    by (simp add: getAT_def session_access_only_def)
  note v = session_refresh_only_valid
  from ensureAccessToken_cases[of 1000 session_access_only example_page net_down]
    session_access_only_valid
  have 1: "ensureAccessToken example_page 1000 net_down session_access_only
             = (JStr (getAT (localStorage session_access_only)), session_access_only)"
    by blast
  from ensureAccessToken_cases[of 1000 session_expired example_page net_down]
    session_expired_invalid
  have 2: "ensureAccessToken example_page 1000 net_down session_expired
             = (JStr [], redirectLogin example_page session_expired)"
    by blast
  from ensureAccessToken_cases[of 1000 session_refreshable example_page net_401]
    session_refreshable_valid a
  have 3: "fst (ensureAccessToken example_page 1000 net_401 session_refreshable) = JStr []"
    by simp
  have 4: "fst (ensureAccessToken example_page 1000 net_not_json ?ro) = JStr []"
    using ensureAccessToken_cases[of 1000 ?ro example_page net_not_json,
        THEN conjunct2, THEN conjunct2, THEN conjunct2, THEN conjunct1, rule_format,
        of "Response 200 None"] v c
    by simp
  have 5: "fst (ensureAccessToken example_page 1000 net_null ?ro) = JStr []"
    using ensureAccessToken_cases[of 1000 ?ro example_page net_null,
        THEN conjunct2, THEN conjunct2, THEN conjunct2, THEN conjunct1, rule_format,
        of "Response 200 (Some JNull)"] v d
    by simp
  have 6: "fst (ensureAccessToken full_storage_page 1000 net_access_leg ?ro) = JStr []"
    using ensureAccessToken_cases[of 1000 ?ro full_storage_page net_access_leg,
        THEN conjunct2, THEN conjunct2, THEN conjunct2, THEN conjunct2, THEN conjunct1, rule_format,
        of "Response 200 (Some access_leg)" access_leg] v b q
    by simp
  have 7: "ensureAccessToken example_page 1000 net_access_leg ?ro =
        (JStr ''T2'',
         logged (refresh_request example_page (getRT (localStorage ?ro))) ?ro
           \<lparr>localStorage := (localStorage ?ro)
                     (LS_access \<mapsto> ''T2'',
                      LS_accessExp \<mapsto> toString (field access_leg ''access_expires_at''))\<rparr>)"
    using ensureAccessToken_cases[of 1000 ?ro example_page net_access_leg,
        THEN conjunct2, THEN conjunct2, THEN conjunct2, THEN conjunct2, THEN conjunct2, rule_format,
        of "Response 200 (Some access_leg)" access_leg] v b q f
    by simp
  show ?thesis
    unfolding 1 2 3 4 5 6 7
    using session_access_only_valid session_expired_invalid session_refreshable_valid
      v a b(1,2) c(1,2) d(1) q g
    by simp
qed

text \<open>
  Claim C1 as stated fails for a success response that contains a new refresh token but
  no expiry for it: the new refresh token is not persisted, the cached one stays.
\<close>

theorem refresh_token_without_expiry_counterexample:
  "field token_without_expiry ''refresh_token'' = JStr ''R2''
   \<and> net_token_without_expiry (refresh_request example_page (getRT (localStorage session_refresh_only)))
       = Resolved (Response 200 (Some token_without_expiry))
   \<and> fst (ensureAccessToken example_page 1000 net_token_without_expiry session_refresh_only) = JStr ''T2''
   \<and> localStorage (snd (ensureAccessToken example_page 1000 net_token_without_expiry session_refresh_only))
        LS_refresh = Some ''R1''"
proof -
  let ?ls = "localStorage session_refresh_only"
  have f: "field token_without_expiry ''refresh_token'' = JStr ''R2''"
    "field token_without_expiry ''refresh_expires_at'' = JUndefined"
    "field token_without_expiry ''access_token'' = JStr ''T2''"
    "token_without_expiry \<noteq> JNull" "token_without_expiry \<noteq> JUndefined"
    by (simp_all add: token_without_expiry_def field_def)
  have b: "net_token_without_expiry r = Resolved (Response 200 (Some token_without_expiry))"
    "ok (Response 200 (Some token_without_expiry))"
    "json_body (Response 200 (Some token_without_expiry)) = Some token_without_expiry" for r
    by (simp_all add: net_token_without_expiry_def ok_def)
  have st: "saveTokens example_page token_without_expiry ?ls =
      (Inr (), ?ls(LS_access \<mapsto> toString (field token_without_expiry ''access_token''),
                   LS_accessExp \<mapsto> toString (field token_without_expiry ''access_expires_at'')))"
    by (rule saveTokens_access_leg) (simp_all add: f example_page_def)
  have e: "ensureAccessToken example_page 1000 net_token_without_expiry session_refresh_only =
      (field token_without_expiry ''access_token'',
       logged (refresh_request example_page (getRT ?ls)) session_refresh_only
         \<lparr>localStorage := ?ls(LS_access \<mapsto> toString (field token_without_expiry ''access_token''),
                   LS_accessExp \<mapsto> toString (field token_without_expiry ''access_expires_at''))\<rparr>)"
    by (rule ensureAccessToken_refresh_ok[where resp = "Response 200 (Some token_without_expiry)"])
      (rule session_refresh_only_valid b f st)+
  show ?thesis
    unfolding e using f b by (simp add: session_refresh_only_def)
qed

section \<open>fetchAllSongs terminates with the pages in order\<close>

lemma loop_full:
  "full_page (net (songs_request pg p)) \<Longrightarrow>
     fetchAllSongs_loop pg net p all =
       fetchAllSongs_loop pg net (p + 1) (all @ page_rows (net (songs_request pg p)))"
  by (subst fetchAllSongs_loop.simps)
    (auto simp: full_page_def page_rows_def split: fetch_result.splits option.splits jsval.splits)

lemma loop_stop:
  "\<not> full_page (net (songs_request pg p)) \<Longrightarrow>
     fetchAllSongs_loop pg net p all =
       Some (case page_error (net (songs_request pg p)) of
               Some e \<Rightarrow> Inl e
             | None \<Rightarrow> Inr (all @ page_rows (net (songs_request pg p))))"
  by (subst fetchAllSongs_loop.simps)
    (auto simp: full_page_def page_rows_def page_error_def
      split: fetch_result.splits option.splits jsval.splits)

lemma loop_result:
  assumes "p \<le> k"
    and "\<forall>q. p \<le> q \<and> q < k \<longrightarrow> full_page (net (songs_request pg q))"
    and "\<not> full_page (net (songs_request pg k))"
  shows "fetchAllSongs_loop pg net p all =
       Some (case page_error (net (songs_request pg k)) of
               Some e \<Rightarrow> Inl e
             | None \<Rightarrow> Inr (all @ concat (map (\<lambda>q. page_rows (net (songs_request pg q))) [p..<Suc k])))"
  using assms
proof (induction "k - p" arbitrary: p all)
  case 0
  then have "p = k" by simp
  with "0.prems"(3) show ?case
    by (simp add: loop_stop cong: option.case_cong)
next
  case (Suc d)
  then have lt: "p < k" and full: "full_page (net (songs_request pg p))"
    by auto
  from Suc have "fetchAllSongs_loop pg net (p + 1) (all @ page_rows (net (songs_request pg p))) =
       Some (case page_error (net (songs_request pg k)) of
               Some e \<Rightarrow> Inl e
             | None \<Rightarrow> Inr ((all @ page_rows (net (songs_request pg p)))
                        @ concat (map (\<lambda>q. page_rows (net (songs_request pg q))) [p + 1..<Suc k])))"
    by (intro Suc.hyps(1)) auto
  moreover from lt have "[p..<Suc k] = p # [p + 1..<Suc k]"
    by (simp add: upt_conv_Cons)
  ultimately show ?case
    using full by (simp add: loop_full[of net pg p] cong: option.case_cong)
qed

lemma page_kinds:
  "full_page a \<Longrightarrow> page_error a = None \<and> 200 \<le> length (page_rows a)"
  "\<not> full_page a \<Longrightarrow> page_error a = None \<Longrightarrow> length (page_rows a) < 200"
  by (auto simp: full_page_def page_error_def page_rows_def
      split: fetch_result.splits option.splits jsval.splits if_splits)

text \<open>
  Claim C10. If some page \<open>p \<ge> 1\<close> is answered with anything but a success status and an
  array of at least 200 rows, then \<open>fetchAllSongs\<close> terminates. There is a first such
  page \<open>k \<le> p\<close>; every page before it was answered without error and with at least 200
  rows. If page \<open>k\<close> was answered with a status outside 200..299 (or the request or its
  body failed) the function throws the corresponding error; otherwise page \<open>k\<close> has fewer
  than 200 rows (none when its body is not an array) and the function returns the rows
  of the pages \<open>1, ..., k\<close> concatenated in this order.
\<close>

theorem fetchAllSongs_result:
  assumes "1 \<le> p" and "\<not> full_page (net (songs_request pg p))"
  shows "\<exists>k. 1 \<le> k \<and> k \<le> p
    \<and> (\<forall>q. 1 \<le> q \<and> q < k \<longrightarrow>
          page_error (net (songs_request pg q)) = None
          \<and> 200 \<le> length (page_rows (net (songs_request pg q))))
    \<and> (page_error (net (songs_request pg k)) = None \<longrightarrow>
          length (page_rows (net (songs_request pg k))) < 200)
    \<and> fetchAllSongs pg net =
        Some (case page_error (net (songs_request pg k)) of
                Some e \<Rightarrow> Inl e
              | None \<Rightarrow> Inr (concat (map (\<lambda>q. page_rows (net (songs_request pg q))) [1..<Suc k])))"
proof -
  define k where "k = (LEAST q. 1 \<le> q \<and> \<not> full_page (net (songs_request pg q)))"
  have ex: "1 \<le> p \<and> \<not> full_page (net (songs_request pg p))"
    using assms by simp
  have k: "1 \<le> k \<and> \<not> full_page (net (songs_request pg k))"
    unfolding k_def by (rule LeastI[of _ p]) (rule ex)
  have le: "k \<le> p"
    unfolding k_def by (rule Least_le) (rule ex)
  have before: "full_page (net (songs_request pg q))" if "1 \<le> q" "q < k" for q
    using that not_less_Least[of q "\<lambda>q. 1 \<le> q \<and> \<not> full_page (net (songs_request pg q))"]
    by (auto simp: k_def)
  have "fetchAllSongs pg net =
        Some (case page_error (net (songs_request pg k)) of
                Some e \<Rightarrow> Inl e
              | None \<Rightarrow> Inr ([] @ concat (map (\<lambda>q. page_rows (net (songs_request pg q))) [1..<Suc k])))"
    unfolding fetchAllSongs_def
    by (rule loop_result) (use k before in auto)
  with k le before show ?thesis
    by (intro exI[of _ k]) (auto simp: page_kinds cong: option.case_cong)
qed


theorem fetchAllSongs_result_witness:
  "(1::nat) \<le> 2
   \<and> net_songs (songs_request example_page 2) = Resolved (Response 200 (Some (JArr [JStr ''last song''])))
   \<and> \<not> full_page (net_songs (songs_request example_page 2))
   \<and> fetchAllSongs example_page net_songs
       = Some (Inr (replicate 200 (JStr ''song'') @ [JStr ''last song'']))"
proof -
  let ?page = "\<lambda>q. net_songs (songs_request example_page q)"
  have d: "decimal 1 = ''1''" "decimal 2 = ''2''" "decimal (Suc 0) = ''1''"
    by code_simp+
  have p1: "?page 1 = Resolved (Response 200 (Some (JArr (replicate 200 (JStr ''song'')))))"
    by (simp add: net_songs_def)
  have p2: "?page 2 = Resolved (Response 200 (Some (JArr [JStr ''last song''])))"
    by (simp add: net_songs_def songs_request_def d)
  have r1: "page_rows (?page 1) = replicate 200 (JStr ''song'')" "page_error (?page 1) = None"
    unfolding p1 by (simp_all add: page_rows_def page_error_def ok_def)
  have r2: "page_rows (?page 2) = [JStr ''last song'']" "page_error (?page 2) = None"
    "\<not> full_page (?page 2)"
    unfolding p2 by (simp_all add: page_rows_def page_error_def full_page_def ok_def)
  have u: "[1..<Suc 2] = [1, 2]"
    by code_simp
  from fetchAllSongs_result[of 2 net_songs example_page] r2(3)
  obtain k where k: "1 \<le> k" "k \<le> 2"
    "page_error (?page k) = None \<longrightarrow> length (page_rows (?page k)) < 200"
    "fetchAllSongs example_page net_songs =
        Some (case page_error (?page k) of
                Some e \<Rightarrow> Inl e
              | None \<Rightarrow> Inr (concat (map (\<lambda>q. page_rows (?page q)) [1..<Suc k])))"
    by auto
  from k(1,2) have "k = 1 \<or> k = 2" by auto
  moreover have "k \<noteq> 1"
    using k(3) r1 by auto
  ultimately have "k = 2" by simp
  with k(4) have "fetchAllSongs example_page net_songs
       = Some (case page_error (?page 2) of
                Some e \<Rightarrow> Inl e
              | None \<Rightarrow> Inr (concat (map (\<lambda>q. page_rows (?page q)) [1..<Suc 2])))"
    by (simp only:)
  then have "fetchAllSongs example_page net_songs
       = Some (Inr (replicate 200 (JStr ''song'') @ [JStr ''last song'']))"
    unfolding u r2(2) by (simp add: r1 r2 del: One_nat_def)
  with p2 r2(3) show ?thesis by simp
qed


end
